theory Spec2Isabelle
  imports Main "HOL-Library.AList"
begin

section \<open>Python values\<close>

text \<open>
  The configuration tree holds the values of \<^verbatim>\<open>ConfigValue\<close> in \<^verbatim>\<open>config/base.py\<close>:
  \<^verbatim>\<open>None\<close>, booleans, unbounded integers, floats, strings, lists and dictionaries with
  string keys. A dictionary is an association list in insertion order with distinct keys,
  as a Python \<^verbatim>\<open>dict\<close> is: \<open>map_of\<close> reads it, \<open>AList.update\<close> writes it (in place
  for a key that is there, at the end for a new one), \<open>AList.delete\<close> removes a key.
  A float is carried as the text that \<^verbatim>\<open>repr\<close> gives for it; no arithmetic is done on
  floats anywhere in the code modelled here. A character of a string is a code point
  below 256; strings with other code points are outside the model.
\<close>

datatype pyfloat = PyFloat string

datatype pyval =
    VNone
  | VBool bool
  | VInt int
  | VFloat pyfloat
  | VStr string
  | VList "pyval list"
  | VDict "(string \<times> pyval) list"

type_synonym pydict = "(string \<times> pyval) list"

definition quoted :: "string \<Rightarrow> string" where
  "quoted s = CHR 0x27 # s @ [CHR 0x27]"

fun digit_char :: "nat \<Rightarrow> char" where
  "digit_char n = char_of (48 + n)"

fun str_nat :: "nat \<Rightarrow> string" where
  "str_nat n = (if n < 10 then [digit_char n] else str_nat (n div 10) @ [digit_char (n mod 10)])"

definition str_int :: "int \<Rightarrow> string" where
  "str_int i = (if i < 0 then CHR ''-'' # str_nat (nat (- i)) else str_nat (nat i))"

fun join :: "string \<Rightarrow> string list \<Rightarrow> string" where
  "join sep [] = []"
| "join sep [x] = x"
| "join sep (x # y # ys) = x @ sep @ join sep (y # ys)"

text \<open>
  \<^verbatim>\<open>repr\<close> of a string. The quote is the double quote when the string has a single
  quote and no double quote, and the single quote otherwise. The quote and the backslash
  are escaped by a backslash; tab, newline and carriage return are written as a backslash
  and the letter t, n or r; any other character that is not printable (below 32, from 127
  to 160, and 173) is written as a backslash, the letter x and two lower-case hexadecimal
  digits.
\<close>

definition hex_digit :: "nat \<Rightarrow> char" where
  "hex_digit n = (if n < 10 then char_of (48 + n) else char_of (87 + n))"

definition printable :: "char \<Rightarrow> bool" where
  "printable c =
     (\<not> ((of_char c :: nat) < 32 \<or> (127 \<le> (of_char c :: nat) \<and> (of_char c :: nat) \<le> 160) \<or>
         (of_char c :: nat) = 173))"

definition repr_char :: "char \<Rightarrow> char \<Rightarrow> string" where
  "repr_char q c =
     (if c = q \<or> c = CHR 0x5C then [CHR 0x5C, c]
      else if c = CHR 0x09 then [CHR 0x5C, CHR ''t'']
      else if c = CHR 0x0A then [CHR 0x5C, CHR ''n'']
      else if c = CHR 0x0D then [CHR 0x5C, CHR ''r'']
      else if \<not> printable c then
        [CHR 0x5C, CHR ''x'', hex_digit ((of_char c :: nat) div 16), hex_digit ((of_char c :: nat) mod 16)]
      else [c])"

definition repr_quote :: "string \<Rightarrow> char" where
  "repr_quote s = (if CHR 0x27 \<in> set s \<and> CHR 0x22 \<notin> set s then CHR 0x22 else CHR 0x27)"

definition py_repr_str :: "string \<Rightarrow> string" where
  "py_repr_str s = repr_quote s # concat (map (repr_char (repr_quote s)) s) @ [repr_quote s]"

text \<open>\<^verbatim>\<open>repr\<close> of a value, for \<^verbatim>\<open>str(value)\<close> on a value that is not a string.\<close>

fun py_repr :: "pyval \<Rightarrow> string" where
  "py_repr VNone = ''None''"
| "py_repr (VBool b) = (if b then ''True'' else ''False'')"
| "py_repr (VInt i) = str_int i"
| "py_repr (VFloat (PyFloat r)) = r"
| "py_repr (VStr s) = py_repr_str s"
| "py_repr (VList xs) = ''['' @ join '', '' (map py_repr xs) @ '']''"
| "py_repr (VDict kvs) =
     ''{'' @ join '', '' (map (\<lambda>kv. py_repr_str (fst kv) @ '': '' @ py_repr (snd kv)) kvs) @ ''}''"

text \<open>\<^verbatim>\<open>str(value)\<close>: a string is itself, anything else is its \<^verbatim>\<open>repr\<close>.\<close>

definition py_str :: "pyval \<Rightarrow> string" where
  "py_str v = (case v of VStr s \<Rightarrow> s | _ \<Rightarrow> py_repr v)"

section \<open>Strings: \<^verbatim>\<open>split\<close>, \<^verbatim>\<open>lower\<close>, \<^verbatim>\<open>in\<close>, \<^verbatim>\<open>startswith\<close>\<close>

text \<open>\<^verbatim>\<open>key.split('.')\<close>: never empty; the empty string gives one empty segment.\<close>

fun split_dot :: "string \<Rightarrow> string list" where
  "split_dot [] = [[]]"
| "split_dot (c # cs) =
     (if c = CHR ''.'' then [] # split_dot cs
      else (case split_dot cs of [] \<Rightarrow> [[c]] | w # ws \<Rightarrow> (c # w) # ws))"

text \<open>
  \<^verbatim>\<open>str.lower()\<close> on code points below 256: the letters \<^verbatim>\<open>A\<close> to \<^verbatim>\<open>Z\<close> and the
  upper-case letters from 192 to 222 (215, the multiplication sign, is not one) move up
  by 32; every other character is kept.
\<close>

definition lower_char :: "char \<Rightarrow> char" where
  "lower_char c =
     (if (65 \<le> (of_char c :: nat) \<and> (of_char c :: nat) \<le> 90) \<or>
         (192 \<le> (of_char c :: nat) \<and> (of_char c :: nat) \<le> 222 \<and> (of_char c :: nat) \<noteq> 215)
      then char_of ((of_char c :: nat) + 32) else c)"

definition lower :: "string \<Rightarrow> string" where
  "lower s = map lower_char s"

fun startswith :: "string \<Rightarrow> string \<Rightarrow> bool" where
  "startswith s [] = True"
| "startswith [] (p # ps) = False"
| "startswith (c # cs) (p # ps) = (c = p \<and> startswith cs ps)"

text \<open>\<^verbatim>\<open>pattern in s\<close> for two strings: \<open>pattern\<close> occurs in \<open>s\<close>.\<close>

fun contains :: "string \<Rightarrow> string \<Rightarrow> bool" where
  "contains [] p = (p = [])"
| "contains (c # cs) p = (startswith (c # cs) p \<or> contains cs p)"

section \<open>Errors and messages\<close>

datatype pytype = TStr | TInt | TFloat | TBool | TList | TDict

text \<open>
  The messages a validator leaves in its \<^verbatim>\<open>errors\<close> list. Each constructor stands for one
  f-string of \<^verbatim>\<open>SchemaValidator.validate\<close> and keeps the values the f-string prints:
  \<^verbatim>\<open>'{key}' is required\<close>, \<^verbatim>\<open>'{key}' must be of type {name}\<close>,
  \<^verbatim>\<open>'{key}' must be >= {min}\<close>, \<^verbatim>\<open>'{key}' must be <= {max}\<close>,
  \<^verbatim>\<open>'{key}' does not match pattern {pattern}\<close>, \<^verbatim>\<open>'{key}' must be one of {choices}\<close>,
  \<^verbatim>\<open>Validation error for '{key}': {e}\<close>; \<open>OtherError\<close> is a message of a validator
  written elsewhere.
\<close>

datatype verr =
    IsRequired string
  | MustBeOfType string pytype
  | MustBeAtLeast string int
  | MustBeAtMost string int
  | NoPatternMatch string string
  | MustBeOneOf string "string list"
  | ValidationErrorFor string
  | OtherError string

text \<open>
  Exceptions. \<open>TypeError\<close>, \<open>ValueError\<close> (with its subclass \<^verbatim>\<open>JSONDecodeError\<close>),
  \<open>IndexError\<close> and \<open>RecursionError\<close> are raised by the interpreter and its library,
  \<open>PluginError\<close> by a plug-in (cache, encryptor); the others are the classes of
  \<^verbatim>\<open>config/base.py\<close>, with the message or the values their message prints:
  \<open>ConfigValidationError key errors\<close> is \<^verbatim>\<open>Validation failed for '{key}': {errors}\<close>,
  \<open>ConfigLoadError e\<close> is \<^verbatim>\<open>Failed to load configuration: {e}\<close>,
  \<open>ConfigLoadErrors\<close> is \<^verbatim>\<open>Failed to load some configurations: {errors}\<close> with one
  \<^verbatim>\<open>Failed to load config '{name}': {e}\<close> for each pair.
\<close>

datatype exn =
    TypeError
  | ValueError
  | IndexError
  | RecursionError
  | PluginError string
  | ConfigException string
  | ConfigValidationError string "verr list"
  | ConfigLoadError exn
  | ConfigLoadErrors "(string \<times> exn) list"

text \<open>
  The entries of \<^verbatim>\<open>BaseConfig._validation_errors\<close>:
  \<^verbatim>\<open>Missing required keys: {missing_keys}\<close>, \<^verbatim>\<open>Key '{key}': {error}\<close> and
  \<^verbatim>\<open>Validation error: {e}\<close>.
\<close>

datatype cerr =
    MissingRequiredKeys "string list"
  | KeyError string verr
  | ValidationError exn

section \<open>Metadata and plug-ins\<close>

datatype ConfigSource = ENVIRONMENT | FILE | DATABASE | REMOTE | MEMORY

datatype ConfigPriority = LOW | MEDIUM | HIGH | CRITICAL

text \<open>A \<^verbatim>\<open>datetime\<close> is a number of microseconds; \<^verbatim>\<open>datetime.now()\<close> is the argument
  \<open>now\<close> of each operation that reads the clock.\<close>

type_synonym datetime = nat

record ConfigMetadata =
  source :: ConfigSource
  priority :: ConfigPriority
  created_at :: datetime
  updated_at :: "datetime option"
  version :: string
  encrypted :: bool
  cached :: bool

text \<open>\<^verbatim>\<open>ConfigMetadata(source=..., priority=..., created_at=...)\<close> with the dataclass defaults.\<close>

definition new_metadata :: "ConfigSource \<Rightarrow> ConfigPriority \<Rightarrow> datetime \<Rightarrow> ConfigMetadata" where
  "new_metadata s p t =
     \<lparr>source = s, priority = p, created_at = t, updated_at = None,
      version = ''1.0.0'', encrypted = False, cached = False\<rparr>"

text \<open>
  \<^verbatim>\<open>IConfigValidator\<close>: what \<^verbatim>\<open>validate(key, value)\<close> returns, with the list that
  \<^verbatim>\<open>get_validation_errors()\<close> returns right after it, or the exception that
  \<^verbatim>\<open>validate\<close> raises. Both validators of \<^verbatim>\<open>config/implementations.py\<close> clear the
  list at the start of every call, so the pair is a function of the key and the value.
\<close>

type_synonym IConfigValidator = "string \<Rightarrow> pyval \<Rightarrow> exn + bool \<times> verr list"

text \<open>\<^verbatim>\<open>IConfigEncryption\<close>: both methods may raise.\<close>

record IConfigEncryption =
  encrypt :: "string \<Rightarrow> exn + string"
  decrypt :: "string \<Rightarrow> exn + string"

text \<open>
  \<^verbatim>\<open>IConfigCache\<close>, over the state \<open>'c\<close> of the cache object: every method returns the
  state it leaves, and what it returns or raises. \<^verbatim>\<open>get\<close> returns a Python value,
  \<open>VNone\<close> for a miss.
\<close>

record 'c IConfigCache =
  cache_get :: "datetime \<Rightarrow> string \<Rightarrow> 'c \<Rightarrow> (exn + pyval) \<times> 'c"
  cache_set :: "datetime \<Rightarrow> string \<Rightarrow> pyval \<Rightarrow> nat option \<Rightarrow> 'c \<Rightarrow> exn option \<times> 'c"
  cache_invalidate :: "string \<Rightarrow> 'c \<Rightarrow> exn option \<times> 'c"
  cache_clear :: "'c \<Rightarrow> exn option \<times> 'c"

section \<open>\<^verbatim>\<open>BaseConfig\<close>\<close>

text \<open>
  The fields of \<^verbatim>\<open>BaseConfig.__init__\<close>. An observer is a number, and
  \<open>notifications\<close> records every call of \<^verbatim>\<open>on_config_changed\<close> as
  (observer, key, old value, new value); an observer that raises is caught by
  \<^verbatim>\<open>_notify_observers\<close>. \<open>default_values\<close> and \<open>required_keys\<close> are what the
  subclass returns from \<^verbatim>\<open>get_default_values()\<close> and \<^verbatim>\<open>get_required_keys()\<close>.
\<close>

record 'c BaseConfig =
  data :: pydict
  metadata :: "(string \<times> ConfigMetadata) list"
  observers :: "nat list"
  notifications :: "(nat \<times> string \<times> pyval \<times> pyval) list"
  validator :: "IConfigValidator option"
  encryption :: "IConfigEncryption option"
  cache :: "'c IConfigCache option"
  cache_state :: 'c
  loaded :: bool
  validated :: bool
  readonly :: bool
  validation_errors :: "cerr list"
  default_values :: pydict
  required_keys :: "string list"

definition has_key :: "'c BaseConfig \<Rightarrow> string \<Rightarrow> bool" where
  "has_key c key = (key \<in> set (map fst (data c)))"

subsection \<open>Helper methods\<close>

fun get_nested_loop :: "pyval \<Rightarrow> string list \<Rightarrow> pyval \<Rightarrow> pyval" where
  "get_nested_loop val [] dflt = val"
| "get_nested_loop val (k # ks) dflt =
     (case val of
        VDict d \<Rightarrow> (case map_of d k of Some v \<Rightarrow> get_nested_loop v ks dflt | None \<Rightarrow> dflt)
      | _ \<Rightarrow> dflt)"

definition get_nested_value :: "'c BaseConfig \<Rightarrow> string \<Rightarrow> pyval \<Rightarrow> pyval" where
  "get_nested_value c key dflt = get_nested_loop (VDict (data c)) (split_dot key) dflt"

text \<open>
  \<^verbatim>\<open>_set_nested_value\<close>: a segment that is missing gets an empty dictionary; a segment
  that is there and is not a dictionary makes \<^verbatim>\<open>k not in data\<close>, \<^verbatim>\<open>data[k]\<close> or the
  final item assignment raise \<open>TypeError\<close>, before anything was written.
\<close>

fun set_nested_loop :: "pydict \<Rightarrow> string list \<Rightarrow> pyval \<Rightarrow> exn + pydict" where
  "set_nested_loop d [] val = Inl IndexError"
| "set_nested_loop d [k] val = Inr (AList.update k val d)"
| "set_nested_loop d (k # k' # ks) val =
     (case map_of d k of
        None \<Rightarrow>
          (case set_nested_loop [] (k' # ks) val of
             Inl e \<Rightarrow> Inl e
           | Inr sub' \<Rightarrow> Inr (AList.update k (VDict sub') d))
      | Some (VDict sub) \<Rightarrow>
          (case set_nested_loop sub (k' # ks) val of
             Inl e \<Rightarrow> Inl e
           | Inr sub' \<Rightarrow> Inr (AList.update k (VDict sub') d))
      | Some _ \<Rightarrow> Inl TypeError)"

definition set_nested_value :: "'c BaseConfig \<Rightarrow> string \<Rightarrow> pyval \<Rightarrow> exn + 'c BaseConfig" where
  "set_nested_value c key val =
     (case set_nested_loop (data c) (split_dot key) val of
        Inl e \<Rightarrow> Inl e
      | Inr d \<Rightarrow> Inr (c\<lparr>data := d\<rparr>))"

definition is_encrypted :: "'c BaseConfig \<Rightarrow> string \<Rightarrow> bool" where
  "is_encrypted c key = (case map_of (metadata c) key of Some m \<Rightarrow> encrypted m | None \<Rightarrow> False)"

definition sensitive_patterns :: "string list" where
  "sensitive_patterns = [''password'', ''secret'', ''key'', ''token'', ''credential'']"

definition should_encrypt :: "string \<Rightarrow> bool" where
  "should_encrypt key = list_ex (\<lambda>pattern. contains (lower key) pattern) sensitive_patterns"

definition notify_observers :: "'c BaseConfig \<Rightarrow> string \<Rightarrow> pyval \<Rightarrow> pyval \<Rightarrow> 'c BaseConfig" where
  "notify_observers c key old_value new_value =
     c\<lparr>notifications := notifications c @ map (\<lambda>ob. (ob, key, old_value, new_value)) (observers c)\<rparr>"

subsection \<open>\<^verbatim>\<open>get\<close>\<close>

text \<open>
  The body of the \<^verbatim>\<open>try\<close> in \<^verbatim>\<open>get\<close>, in its three steps: the cache lookup, the read
  with its decryption, and the cache store. \<open>Inl e\<close> is the exception \<open>e\<close> leaving the
  body; the configuration returned has the cache in the state the calls left it.
\<close>

definition get_cache_store :: "'c BaseConfig \<Rightarrow> datetime \<Rightarrow> string \<Rightarrow> pyval \<Rightarrow> (exn + pyval) \<times> 'c BaseConfig" where
  "get_cache_store c now key val =
     (case cache c of
        None \<Rightarrow> (Inr val, c)
      | Some ch \<Rightarrow>
          if val = VNone then (Inr val, c)
          else (case cache_set ch now key val None (cache_state c) of
                  (Some e, st) \<Rightarrow> (Inl e, c\<lparr>cache_state := st\<rparr>)
                | (None, st) \<Rightarrow> (Inr val, c\<lparr>cache_state := st\<rparr>)))"

definition get_from_data :: "'c BaseConfig \<Rightarrow> datetime \<Rightarrow> string \<Rightarrow> pyval \<Rightarrow> (exn + pyval) \<times> 'c BaseConfig" where
  "get_from_data c now key dflt =
     (let val = get_nested_value c key dflt in
      case (if is_encrypted c key then encryption c else None) of
        None \<Rightarrow> get_cache_store c now key val
      | Some enc \<Rightarrow>
          (case decrypt enc (py_str val) of
             Inl e \<Rightarrow> (Inl e, c)
           | Inr plain \<Rightarrow> get_cache_store c now key (VStr plain)))"

definition get_body :: "'c BaseConfig \<Rightarrow> datetime \<Rightarrow> string \<Rightarrow> pyval \<Rightarrow> (exn + pyval) \<times> 'c BaseConfig" where
  "get_body c now key dflt =
     (case cache c of
        None \<Rightarrow> get_from_data c now key dflt
      | Some ch \<Rightarrow>
          (case cache_get ch now key (cache_state c) of
             (Inl e, st) \<Rightarrow> (Inl e, c\<lparr>cache_state := st\<rparr>)
           | (Inr cached_value, st) \<Rightarrow>
               if cached_value \<noteq> VNone then (Inr cached_value, c\<lparr>cache_state := st\<rparr>)
               else get_from_data (c\<lparr>cache_state := st\<rparr>) now key dflt))"

text \<open>\<^verbatim>\<open>get(key, default)\<close>: the \<^verbatim>\<open>except Exception\<close> logs and returns \<open>default\<close>.\<close>

definition get :: "'c BaseConfig \<Rightarrow> datetime \<Rightarrow> string \<Rightarrow> pyval \<Rightarrow> pyval \<times> 'c BaseConfig" where
  "get c now key dflt =
     (case get_body c now key dflt of
        (Inl e, c') \<Rightarrow> (dflt, c')
      | (Inr v, c') \<Rightarrow> (v, c'))"

subsection \<open>\<^verbatim>\<open>set\<close> and \<^verbatim>\<open>remove_key\<close>\<close>

text \<open>
  An operation that may raise returns \<open>Some e\<close> for the exception \<open>e\<close> it raises, or
  \<open>None\<close>, with the configuration as the call leaves it.
\<close>

definition set_finish :: "'c BaseConfig \<Rightarrow> datetime \<Rightarrow> string \<Rightarrow> pyval \<Rightarrow> pyval \<Rightarrow> ConfigMetadata option \<Rightarrow> exn option \<times> 'c BaseConfig" where
  "set_finish c now key old_value val meta =
     (case set_nested_value c key val of
        Inl e \<Rightarrow> (Some e, c)
      | Inr c1 \<Rightarrow>
          (let m = (case meta of Some m \<Rightarrow> m | None \<Rightarrow> new_metadata MEMORY MEDIUM now);
               c2 = c1\<lparr>metadata := AList.update key m (metadata c1)\<rparr>
           in case cache c2 of
                None \<Rightarrow> (None, notify_observers c2 key old_value val)
              | Some ch \<Rightarrow>
                  (case cache_invalidate ch key (cache_state c2) of
                     (Some e, st) \<Rightarrow> (Some e, c2\<lparr>cache_state := st\<rparr>)
                   | (None, st) \<Rightarrow> (None, notify_observers (c2\<lparr>cache_state := st\<rparr>) key old_value val))))"

definition set_encrypt :: "'c BaseConfig \<Rightarrow> string \<Rightarrow> pyval \<Rightarrow> exn + pyval" where
  "set_encrypt c key val =
     (case (if should_encrypt key then encryption c else None) of
        None \<Rightarrow> Inr val
      | Some enc \<Rightarrow> (case encrypt enc (py_str val) of Inl e \<Rightarrow> Inl e | Inr cipher \<Rightarrow> Inr (VStr cipher)))"

definition readonly_set_message :: "string \<Rightarrow> string" where
  "readonly_set_message key = ''Configuration is readonly, cannot set '' @ quoted key"

text \<open>The validation step of \<^verbatim>\<open>set\<close>: the exception it raises, if any.\<close>

definition set_validate :: "'c BaseConfig \<Rightarrow> string \<Rightarrow> pyval \<Rightarrow> exn option" where
  "set_validate c key val =
     (case validator c of
        None \<Rightarrow> None
      | Some vd \<Rightarrow>
          (case vd key val of
             Inl e \<Rightarrow> Some e
           | Inr (ok, errors) \<Rightarrow> if ok then None else Some (ConfigValidationError key errors)))"

definition set_value :: "'c BaseConfig \<Rightarrow> datetime \<Rightarrow> string \<Rightarrow> pyval \<Rightarrow> ConfigMetadata option \<Rightarrow> exn option \<times> 'c BaseConfig" where
  "set_value c now key val meta =
     (if readonly c then (Some (ConfigException (readonly_set_message key)), c)
      else case set_validate c key val of
        Some e \<Rightarrow> (Some e, c)
      | None \<Rightarrow>
          (case get c now key VNone of
             (old_value, c1) \<Rightarrow>
               (case set_encrypt c1 key val of
                  Inl e \<Rightarrow> (Some e, c1)
                | Inr val' \<Rightarrow> set_finish c1 now key old_value val' meta)))"

definition remove_key :: "'c BaseConfig \<Rightarrow> string \<Rightarrow> exn option \<times> 'c BaseConfig" where
  "remove_key c key =
     (if readonly c then (Some (ConfigException ''Configuration is readonly''), c)
      else case map_of (data c) key of
        None \<Rightarrow> (None, c)
      | Some old_value \<Rightarrow>
          (let c1 = c\<lparr>data := AList.delete key (data c), metadata := AList.delete key (metadata c)\<rparr>
           in case cache c1 of
                None \<Rightarrow> (None, notify_observers c1 key old_value VNone)
              | Some ch \<Rightarrow>
                  (case cache_invalidate ch key (cache_state c1) of
                     (Some e, st) \<Rightarrow> (Some e, c1\<lparr>cache_state := st\<rparr>)
                   | (None, st) \<Rightarrow> (None, notify_observers (c1\<lparr>cache_state := st\<rparr>) key old_value VNone))))"

definition set_readonly :: "'c BaseConfig \<Rightarrow> bool \<Rightarrow> 'c BaseConfig" where
  "set_readonly c b = c\<lparr>readonly := b\<rparr>"

definition add_observer :: "'c BaseConfig \<Rightarrow> nat \<Rightarrow> 'c BaseConfig" where
  "add_observer c ob = c\<lparr>observers := observers c @ [ob]\<rparr>"

text \<open>
  \<^verbatim>\<open>BaseConfig.__init__\<close> with the plug-ins given to it, of a subclass with the given
  defaults and required keys. \<^verbatim>\<open>_validation_errors\<close> does not exist yet, and
  \<^verbatim>\<open>get_validation_errors\<close> reads it with the default \<^verbatim>\<open>[]\<close>.
\<close>

definition BaseConfig_init ::
  "IConfigValidator option \<Rightarrow> IConfigEncryption option \<Rightarrow> 'c IConfigCache option \<Rightarrow> 'c \<Rightarrow>
   pydict \<Rightarrow> string list \<Rightarrow> 'c BaseConfig" where
  "BaseConfig_init vd enc ch st dv rk =
     \<lparr>data = [], metadata = [], observers = [], notifications = [],
      validator = vd, encryption = enc, cache = ch, cache_state = st,
      loaded = False, validated = False, readonly = False, validation_errors = [],
      default_values = dv, required_keys = rk\<rparr>"

section \<open>\<^verbatim>\<open>MemoryCache\<close>\<close>

record MemoryCache =
  mc_cache :: pydict
  mc_ttl :: "(string \<times> datetime) list"

definition MemoryCache_init :: MemoryCache where
  "MemoryCache_init = \<lparr>mc_cache = [], mc_ttl = []\<rparr>"

definition MemoryCache_invalidate :: "string \<Rightarrow> MemoryCache \<Rightarrow> MemoryCache" where
  "MemoryCache_invalidate key st =
     st\<lparr>mc_cache := AList.delete key (mc_cache st), mc_ttl := AList.delete key (mc_ttl st)\<rparr>"

definition MemoryCache_get :: "datetime \<Rightarrow> string \<Rightarrow> MemoryCache \<Rightarrow> pyval \<times> MemoryCache" where
  "MemoryCache_get now key st =
     (case map_of (mc_cache st) key of
        None \<Rightarrow> (VNone, st)
      | Some v \<Rightarrow>
          (case map_of (mc_ttl st) key of
             None \<Rightarrow> (v, st)
           | Some expiry \<Rightarrow> if now > expiry then (VNone, MemoryCache_invalidate key st) else (v, st)))"

text \<open>\<^verbatim>\<open>if ttl:\<close> holds for a number of seconds that is not zero.\<close>

definition MemoryCache_set :: "datetime \<Rightarrow> string \<Rightarrow> pyval \<Rightarrow> nat option \<Rightarrow> MemoryCache \<Rightarrow> MemoryCache" where
  "MemoryCache_set now key val ttl st =
     (let st1 = st\<lparr>mc_cache := AList.update key val (mc_cache st)\<rparr> in
      case ttl of
        Some secs \<Rightarrow>
          if secs \<noteq> 0 then st1\<lparr>mc_ttl := AList.update key (now + secs * 1000000) (mc_ttl st1)\<rparr>
          else st1\<lparr>mc_ttl := AList.delete key (mc_ttl st1)\<rparr>
      | None \<Rightarrow> st1\<lparr>mc_ttl := AList.delete key (mc_ttl st1)\<rparr>)"

definition MemoryCache_clear :: "MemoryCache \<Rightarrow> MemoryCache" where
  "MemoryCache_clear st = \<lparr>mc_cache = [], mc_ttl = []\<rparr>"

text \<open>The four methods as an \<^verbatim>\<open>IConfigCache\<close>; none of them raises.\<close>

definition MemoryCache_plugin :: "MemoryCache IConfigCache" where
  "MemoryCache_plugin =
     \<lparr>cache_get = (\<lambda>now key st. case MemoryCache_get now key st of (v, st') \<Rightarrow> (Inr v, st')),
      cache_set = (\<lambda>now key val ttl st. (None, MemoryCache_set now key val ttl st)),
      cache_invalidate = (\<lambda>key st. (None, MemoryCache_invalidate key st)),
      cache_clear = (\<lambda>st. (None, MemoryCache_clear st))\<rparr>"

text \<open>
  What \<^verbatim>\<open>set\<close> followed by \<^verbatim>\<open>get\<close> needs of a cache: storing and invalidating do not
  raise, and a key that was just invalidated is a miss.
\<close>

definition cache_coherent :: "'c IConfigCache \<Rightarrow> bool" where
  "cache_coherent ch =
     ((\<forall>key st. fst (cache_invalidate ch key st) = None) \<and>
      (\<forall>now key val ttl st. fst (cache_set ch now key val ttl st) = None) \<and>
      (\<forall>now key st. fst (cache_get ch now key (snd (cache_invalidate ch key st))) = Inr VNone))"

definition cache_ok :: "'c BaseConfig \<Rightarrow> bool" where
  "cache_ok c = (case cache c of None \<Rightarrow> True | Some ch \<Rightarrow> cache_coherent ch)"

text \<open>The validator of the configuration, if there is one, accepts the pair.\<close>

definition validator_accepts :: "'c BaseConfig \<Rightarrow> string \<Rightarrow> pyval \<Rightarrow> bool" where
  "validator_accepts c key val =
     (case validator c of
        None \<Rightarrow> True
      | Some vd \<Rightarrow> (case vd key val of Inl e \<Rightarrow> False | Inr (ok, errors) \<Rightarrow> ok))"

text \<open>
  A path can be written into a tree: every segment but the last is missing from the
  tree, from its first missing segment on, or leads to a dictionary.
\<close>

fun path_writable :: "pydict \<Rightarrow> string list \<Rightarrow> bool" where
  "path_writable d [] = False"
| "path_writable d [k] = True"
| "path_writable d (k # k' # ks) =
     (case map_of d k of
        None \<Rightarrow> True
      | Some (VDict sub) \<Rightarrow> path_writable sub (k' # ks)
      | Some _ \<Rightarrow> False)"

section \<open>\<^verbatim>\<open>load_defaults\<close>\<close>

text \<open>
  The loop of \<^verbatim>\<open>load_defaults\<close> over \<^verbatim>\<open>defaults.items()\<close>: a key that is not a
  top-level key of \<open>data\<close> is added with metadata of source \<open>MEMORY\<close> and priority
  \<open>LOW\<close>. Nothing in the body raises here, so the \<^verbatim>\<open>except\<close> that would turn an
  exception into \<^verbatim>\<open>ConfigLoadError\<close> is never entered.
\<close>

fun load_defaults_loop :: "'c BaseConfig \<Rightarrow> datetime \<Rightarrow> pydict \<Rightarrow> 'c BaseConfig" where
  "load_defaults_loop c now [] = c"
| "load_defaults_loop c now ((key, val) # rest) =
     (if key \<in> set (map fst (data c)) then load_defaults_loop c now rest
      else load_defaults_loop
             (c\<lparr>data := AList.update key val (data c),
                metadata := AList.update key (new_metadata MEMORY LOW now) (metadata c)\<rparr>)
             now rest)"

definition load_defaults :: "'c BaseConfig \<Rightarrow> datetime \<Rightarrow> 'c BaseConfig" where
  "load_defaults c now = (load_defaults_loop c now (default_values c))\<lparr>loaded := True\<rparr>"

section \<open>\<^verbatim>\<open>backup\<close> and \<^verbatim>\<open>restore\<close>\<close>

text \<open>
  \<^verbatim>\<open>datetime.isoformat\<close> and \<^verbatim>\<open>datetime.fromisoformat\<close> belong to the standard library
  and are parameters; \<open>None\<close> is \<^verbatim>\<open>fromisoformat\<close> raising \<open>ValueError\<close>.
\<close>

record iso_codec =
  isoformat :: "datetime \<Rightarrow> string"
  fromisoformat :: "string \<Rightarrow> datetime option"

text \<open>One entry of \<^verbatim>\<open>backup()['metadata']\<close>: enum values and timestamps as primitives.\<close>

record metadata_entry =
  me_source :: string
  me_priority :: int
  me_created_at :: string
  me_updated_at :: "string option"
  me_version :: string
  me_encrypted :: bool
  me_cached :: bool

text \<open>The snapshot: each of the keys \<^verbatim>\<open>'data'\<close> and \<^verbatim>\<open>'metadata'\<close> may be missing.\<close>

record snapshot =
  snap_data :: "pydict option"
  snap_metadata :: "(string \<times> metadata_entry) list option"

fun ConfigSource_value :: "ConfigSource \<Rightarrow> string" where
  "ConfigSource_value ENVIRONMENT = ''environment''"
| "ConfigSource_value FILE = ''file''"
| "ConfigSource_value DATABASE = ''database''"
| "ConfigSource_value REMOTE = ''remote''"
| "ConfigSource_value MEMORY = ''memory''"

fun ConfigPriority_value :: "ConfigPriority \<Rightarrow> int" where
  "ConfigPriority_value LOW = 1"
| "ConfigPriority_value MEDIUM = 2"
| "ConfigPriority_value HIGH = 3"
| "ConfigPriority_value CRITICAL = 4"

text \<open>\<^verbatim>\<open>ConfigSource(value)\<close> and \<^verbatim>\<open>ConfigPriority(value)\<close>: \<open>None\<close> is \<open>ValueError\<close>.\<close>

definition ConfigSource_of :: "string \<Rightarrow> ConfigSource option" where
  "ConfigSource_of s =
     (if s = ''environment'' then Some ENVIRONMENT
      else if s = ''file'' then Some FILE
      else if s = ''database'' then Some DATABASE
      else if s = ''remote'' then Some REMOTE
      else if s = ''memory'' then Some MEMORY
      else None)"

definition ConfigPriority_of :: "int \<Rightarrow> ConfigPriority option" where
  "ConfigPriority_of i =
     (if i = 1 then Some LOW
      else if i = 2 then Some MEDIUM
      else if i = 3 then Some HIGH
      else if i = 4 then Some CRITICAL
      else None)"

definition backup_entry :: "iso_codec \<Rightarrow> ConfigMetadata \<Rightarrow> metadata_entry" where
  "backup_entry codec v =
     \<lparr>me_source = ConfigSource_value (source v),
      me_priority = ConfigPriority_value (priority v),
      me_created_at = isoformat codec (created_at v),
      me_updated_at = (case updated_at v of Some t \<Rightarrow> Some (isoformat codec t) | None \<Rightarrow> None),
      me_version = version v,
      me_encrypted = encrypted v,
      me_cached = cached v\<rparr>"

definition backup :: "iso_codec \<Rightarrow> 'c BaseConfig \<Rightarrow> snapshot" where
  "backup codec c =
     \<lparr>snap_data = Some (data c),
      snap_metadata = Some (map (\<lambda>(k, v). (k, backup_entry codec v)) (metadata c))\<rparr>"

text \<open>
  The \<^verbatim>\<open>ConfigMetadata(...)\<close> call of \<^verbatim>\<open>restore\<close>; an \<^verbatim>\<open>updated_at\<close> that is
  \<^verbatim>\<open>None\<close> or the empty string is falsy and gives \<^verbatim>\<open>None\<close>.
\<close>

definition restore_entry :: "iso_codec \<Rightarrow> metadata_entry \<Rightarrow> exn + ConfigMetadata" where
  "restore_entry codec m =
     (case ConfigSource_of (me_source m) of
        None \<Rightarrow> Inl ValueError
      | Some s \<Rightarrow>
     (case ConfigPriority_of (me_priority m) of
        None \<Rightarrow> Inl ValueError
      | Some p \<Rightarrow>
     (case fromisoformat codec (me_created_at m) of
        None \<Rightarrow> Inl ValueError
      | Some ca \<Rightarrow>
     (case (case me_updated_at m of
              None \<Rightarrow> Some None
            | Some u \<Rightarrow> if u = [] then Some None
                        else (case fromisoformat codec u of None \<Rightarrow> None | Some t \<Rightarrow> Some (Some t))) of
        None \<Rightarrow> Inl ValueError
      | Some ua \<Rightarrow>
          Inr \<lparr>source = s, priority = p, created_at = ca, updated_at = ua,
               version = me_version m, encrypted = me_encrypted m, cached = me_cached m\<rparr>))))"

text \<open>The loop of \<^verbatim>\<open>restore\<close> over the metadata entries: an exception leaves the
  entries restored so far.\<close>

fun restore_loop :: "iso_codec \<Rightarrow> 'c BaseConfig \<Rightarrow> (string \<times> metadata_entry) list \<Rightarrow> exn option \<times> 'c BaseConfig" where
  "restore_loop codec c [] = (None, c)"
| "restore_loop codec c ((key, m) # rest) =
     (case restore_entry codec m of
        Inl e \<Rightarrow> (Some e, c)
      | Inr v \<Rightarrow> restore_loop codec (c\<lparr>metadata := AList.update key v (metadata c)\<rparr>) rest)"

definition restore :: "iso_codec \<Rightarrow> 'c BaseConfig \<Rightarrow> snapshot \<Rightarrow> exn option \<times> 'c BaseConfig" where
  "restore codec c b =
     (let c1 = (case snap_data b of Some d \<Rightarrow> c\<lparr>data := d\<rparr> | None \<Rightarrow> c) in
      case snap_metadata b of
        None \<Rightarrow> (None, c1)
      | Some ms \<Rightarrow> restore_loop codec (c1\<lparr>metadata := []\<rparr>) ms)"

section \<open>Validators\<close>




text \<open>\<^verbatim>\<open>isinstance(value, t)\<close>; \<^verbatim>\<open>bool\<close> is a subclass of \<^verbatim>\<open>int\<close>.\<close>

fun isinstance :: "pyval \<Rightarrow> pytype \<Rightarrow> bool" where
  "isinstance (VStr s) TStr = True"
| "isinstance (VInt i) TInt = True"
| "isinstance (VBool b) TInt = True"
| "isinstance (VBool b) TBool = True"
| "isinstance (VFloat f) TFloat = True"
| "isinstance (VList xs) TList = True"
| "isinstance (VDict d) TDict = True"
| "isinstance v t = False"










definition TypeValidator_validate :: "(string \<times> pytype) list \<Rightarrow> string \<Rightarrow> pyval \<Rightarrow> bool \<times> verr list" where
  "TypeValidator_validate type_mapping key val =
     (case map_of type_mapping key of
        Some ty \<Rightarrow> if \<not> isinstance val ty then (False, [MustBeOfType key ty]) else (True, [])
      | None \<Rightarrow> (True, []))"

definition TypeValidator :: "(string \<times> pytype) list \<Rightarrow> IConfigValidator" where
  "TypeValidator type_mapping = (\<lambda>key val. Inr (TypeValidator_validate type_mapping key val))"

section \<open>\<^verbatim>\<open>BaseConfig.validate\<close>\<close>

text \<open>
  The loop over \<^verbatim>\<open>self._data.items()\<close>: the errors of each key that fails are added,
  each as \<^verbatim>\<open>Key '{key}': {error}\<close>. A validator that raises ends the loop with the
  errors gathered so far.
\<close>

fun validate_loop :: "IConfigValidator \<Rightarrow> pydict \<Rightarrow> cerr list \<Rightarrow> exn option \<times> cerr list" where
  "validate_loop vd [] errs = (None, errs)"
| "validate_loop vd ((key, val) # rest) errs =
     (case vd key val of
        Inl e \<Rightarrow> (Some e, errs)
      | Inr (ok, errors) \<Rightarrow>
          validate_loop vd rest (if ok then errs else errs @ map (KeyError key) errors))"

definition missing_keys :: "'c BaseConfig \<Rightarrow> string list" where
  "missing_keys c = filter (\<lambda>key. key \<notin> set (map fst (data c))) (required_keys c)"

definition validate :: "'c BaseConfig \<Rightarrow> bool \<times> 'c BaseConfig" where
  "validate c =
     (let errs0 = (if missing_keys c \<noteq> [] then [MissingRequiredKeys (missing_keys c)] else []) in
      case (case validator c of None \<Rightarrow> (None, errs0) | Some vd \<Rightarrow> validate_loop vd (data c) errs0) of
        (Some e, errs) \<Rightarrow> (False, c\<lparr>validation_errors := errs @ [ValidationError e], validated := False\<rparr>)
      | (None, errs) \<Rightarrow>
          if errs = [] then (True, c\<lparr>validation_errors := [], validated := True\<rparr>)
          else (False, c\<lparr>validation_errors := errs, validated := False\<rparr>))"

section \<open>\<^verbatim>\<open>load\<close> and \<^verbatim>\<open>reload\<close>\<close>

text \<open>
  \<^verbatim>\<open>load()\<close> as the manager calls it, with no source, so that the loader is not used:
  every default whose key is not a top-level key of \<open>data\<close> goes through \<^verbatim>\<open>set\<close> with
  metadata of source \<open>MEMORY\<close> and priority \<open>LOW\<close>. An exception of \<^verbatim>\<open>set\<close> ends the
  loop and is raised again as \<^verbatim>\<open>ConfigLoadError\<close>.
\<close>

fun load_loop :: "'c BaseConfig \<Rightarrow> datetime \<Rightarrow> pydict \<Rightarrow> exn option \<times> 'c BaseConfig" where
  "load_loop c now [] = (None, c)"
| "load_loop c now ((key, val) # rest) =
     (if key \<in> set (map fst (data c)) then load_loop c now rest
      else (case set_value c now key val (Some (new_metadata MEMORY LOW now)) of
              (Some e, c') \<Rightarrow> (Some e, c')
            | (None, c') \<Rightarrow> load_loop c' now rest))"

definition load :: "'c BaseConfig \<Rightarrow> datetime \<Rightarrow> exn option \<times> 'c BaseConfig" where
  "load c now =
     (case load_loop c now (default_values c) of
        (Some e, c') \<Rightarrow> (Some (ConfigLoadError e), c')
      | (None, c') \<Rightarrow> (None, c'\<lparr>loaded := True\<rparr>))"

definition reload :: "'c BaseConfig \<Rightarrow> datetime \<Rightarrow> exn option \<times> 'c BaseConfig" where
  "reload c now =
     (let c1 = c\<lparr>loaded := False, validated := False\<rparr> in
      case (case cache c1 of
              None \<Rightarrow> (None, c1)
            | Some ch \<Rightarrow> (case cache_clear ch (cache_state c1) of (r, st) \<Rightarrow> (r, c1\<lparr>cache_state := st\<rparr>))) of
        (Some e, c2) \<Rightarrow> (Some e, c2)
      | (None, c2) \<Rightarrow>
          (case load c2 now of
             (Some e, c3) \<Rightarrow> (Some e, c3)
           | (None, c3) \<Rightarrow> (None, snd (validate c3))))"

section \<open>\<^verbatim>\<open>ConfigManager\<close>\<close>

datatype ConfigStrategy = LAZY | EAGER | ON_DEMAND

text \<open>
  The fields of the manager that the operations below read or write. A configuration
  object is changed in place by its methods; here the manager's entry is replaced by the
  object as the call leaves it.
\<close>

record 'c ConfigManager =
  configs :: "(string \<times> 'c BaseConfig) list"
  strategy :: ConfigStrategy
  last_reload :: datetime

definition not_found_message :: "string \<Rightarrow> string" where
  "not_found_message name = ''Config '' @ quoted name @ '' not found''"

definition get_config :: "'c ConfigManager \<Rightarrow> datetime \<Rightarrow> string \<Rightarrow> (exn + 'c BaseConfig) \<times> 'c ConfigManager" where
  "get_config m now name =
     (case map_of (configs m) name of
        None \<Rightarrow> (Inl (ConfigException (not_found_message name)), m)
      | Some config \<Rightarrow>
          if strategy m = LAZY \<and> \<not> loaded config then
            (case load config now of
               (Some e, c') \<Rightarrow> (Inl e, m\<lparr>configs := AList.update name c' (configs m)\<rparr>)
             | (None, c') \<Rightarrow>
                 (Inr (snd (validate c')), m\<lparr>configs := AList.update name (snd (validate c')) (configs m)\<rparr>))
          else (Inr config, m))"

text \<open>\<^verbatim>\<open>get_config_value\<close>: the \<^verbatim>\<open>except Exception\<close> logs and returns \<open>default\<close>.\<close>

definition get_config_value :: "'c ConfigManager \<Rightarrow> datetime \<Rightarrow> string \<Rightarrow> string \<Rightarrow> pyval \<Rightarrow> pyval \<times> 'c ConfigManager" where
  "get_config_value m now config_name key dflt =
     (case get_config m now config_name of
        (Inl e, m') \<Rightarrow> (dflt, m')
      | (Inr config, m') \<Rightarrow>
          (case get config now key dflt of
             (v, config') \<Rightarrow> (v, m'\<lparr>configs := AList.update config_name config' (configs m')\<rparr>)))"

subsection \<open>Bulk operations\<close>

text \<open>
  Each loop runs over \<^verbatim>\<open>self._configs.items()\<close> and returns what it gathered with the
  entries as the calls left them. \<^verbatim>\<open>load_all\<close> gathers
  \<^verbatim>\<open>Failed to load config '{name}': {e}\<close> for each failure, as the pair of the name
  and the exception.
\<close>

fun load_all_loop :: "(string \<times> 'c BaseConfig) list \<Rightarrow> datetime \<Rightarrow> (string \<times> exn) list \<Rightarrow>
    (string \<times> exn) list \<times> (string \<times> 'c BaseConfig) list" where
  "load_all_loop [] now errors = (errors, [])"
| "load_all_loop ((name, config) # rest) now errors =
     (if \<not> loaded config then
        (case load config now of
           (Some e, c') \<Rightarrow>
             (case load_all_loop rest now (errors @ [(name, e)]) of (errs, cs) \<Rightarrow> (errs, (name, c') # cs))
         | (None, c') \<Rightarrow>
             (case load_all_loop rest now errors of (errs, cs) \<Rightarrow> (errs, (name, c') # cs)))
      else (case load_all_loop rest now errors of (errs, cs) \<Rightarrow> (errs, (name, config) # cs)))"

definition load_all :: "'c ConfigManager \<Rightarrow> datetime \<Rightarrow> exn option \<times> 'c ConfigManager" where
  "load_all m now =
     (case load_all_loop (configs m) now [] of
        (errors, cs) \<Rightarrow>
          (if errors \<noteq> [] then Some (ConfigLoadErrors errors) else None, m\<lparr>configs := cs\<rparr>))"

text \<open>
  \<^verbatim>\<open>validate_all\<close> gathers \<^verbatim>\<open>Validation failed for config '{name}'\<close>, as the name,
  logs the list and returns false when it is not empty. \<^verbatim>\<open>BaseConfig.validate\<close> raises
  nothing, so the \<^verbatim>\<open>except\<close> of the loop is never entered.
\<close>

fun validate_all_loop :: "(string \<times> 'c BaseConfig) list \<Rightarrow> string list \<Rightarrow>
    string list \<times> (string \<times> 'c BaseConfig) list" where
  "validate_all_loop [] errors = (errors, [])"
| "validate_all_loop ((name, config) # rest) errors =
     (case validate config of
        (ok, c') \<Rightarrow>
          (case validate_all_loop rest (if ok then errors else errors @ [name]) of
             (errs, cs) \<Rightarrow> (errs, (name, c') # cs)))"

definition validate_all_errors :: "'c ConfigManager \<Rightarrow> string list" where
  "validate_all_errors m = fst (validate_all_loop (configs m) [])"

definition validate_all :: "'c ConfigManager \<Rightarrow> bool \<times> 'c ConfigManager" where
  "validate_all m =
     (case validate_all_loop (configs m) [] of
        (errors, cs) \<Rightarrow> (errors = [], m\<lparr>configs := cs\<rparr>))"

text \<open>
  \<^verbatim>\<open>reload_all\<close> catches the exception of each \<^verbatim>\<open>reload\<close> and logs it; the first
  component of the loop is what was logged. Nothing is raised after the loop.
\<close>

fun reload_all_loop :: "(string \<times> 'c BaseConfig) list \<Rightarrow> datetime \<Rightarrow>
    (string \<times> exn) list \<times> (string \<times> 'c BaseConfig) list" where
  "reload_all_loop [] now = ([], [])"
| "reload_all_loop ((name, config) # rest) now =
     (case reload config now of
        (r, c') \<Rightarrow>
          (case reload_all_loop rest now of
             (logged, cs) \<Rightarrow>
               ((case r of Some e \<Rightarrow> [(name, e)] | None \<Rightarrow> []) @ logged, (name, c') # cs)))"

definition reload_all_logged :: "'c ConfigManager \<Rightarrow> datetime \<Rightarrow> (string \<times> exn) list" where
  "reload_all_logged m now = fst (reload_all_loop (configs m) now)"

definition reload_all :: "'c ConfigManager \<Rightarrow> datetime \<Rightarrow> exn option \<times> 'c ConfigManager" where
  "reload_all m now =
     (case reload_all_loop (configs m) now of
        (logged, cs) \<Rightarrow> (None, m\<lparr>configs := cs, last_reload := now\<rparr>))"

text \<open>
  What the bulk operations are to gather, said without the loops: for every registered
  object whose call fails, in the order of registration, its name (with the exception).
\<close>

definition load_failures :: "(string \<times> 'c BaseConfig) list \<Rightarrow> datetime \<Rightarrow> (string \<times> exn) list" where
  "load_failures cs now =
     concat (map (\<lambda>(name, config).
        if loaded config then []
        else (case fst (load config now) of Some e \<Rightarrow> [(name, e)] | None \<Rightarrow> [])) cs)"

definition validate_failures :: "(string \<times> 'c BaseConfig) list \<Rightarrow> string list" where
  "validate_failures cs = map fst (filter (\<lambda>(name, config). \<not> fst (validate config)) cs)"

definition reload_failures :: "(string \<times> 'c BaseConfig) list \<Rightarrow> datetime \<Rightarrow> (string \<times> exn) list" where
  "reload_failures cs now =
     concat (map (\<lambda>(name, config).
        case fst (reload config now) of Some e \<Rightarrow> [(name, e)] | None \<Rightarrow> []) cs)"

section \<open>\<^verbatim>\<open>HashEncryption\<close>\<close>

text \<open>The digest of \<^verbatim>\<open>hashlib\<close> is the parameter \<open>h\<close>; \<^verbatim>\<open>decrypt\<close> always raises.\<close>

definition HashEncryption :: "(string \<Rightarrow> string) \<Rightarrow> IConfigEncryption" where
  "HashEncryption h =
     \<lparr>encrypt = (\<lambda>s. Inr (h s)),
      decrypt = (\<lambda>s. Inl (ConfigException ''Hash encryption is one-way, cannot decrypt''))\<rparr>"

section \<open>Reading: when \<^verbatim>\<open>get\<close> meets no value\<close>

text \<open>The dotted path leads to a value: every segment is a key of the dictionary reached.\<close>

fun path_resolves :: "pyval \<Rightarrow> string list \<Rightarrow> bool" where
  "path_resolves val [] = True"
| "path_resolves val (k # ks) =
     (case val of
        VDict d \<Rightarrow> (case map_of d k of Some v \<Rightarrow> path_resolves v ks | None \<Rightarrow> False)
      | _ \<Rightarrow> False)"

text \<open>The cache of the configuration answers the lookup with a value that is not \<^verbatim>\<open>None\<close>.\<close>

definition cache_hit :: "'c BaseConfig \<Rightarrow> datetime \<Rightarrow> string \<Rightarrow> bool" where
  "cache_hit c now key =
     (case cache c of
        None \<Rightarrow> False
      | Some ch \<Rightarrow>
          (case fst (cache_get ch now key (cache_state c)) of
             Inl e \<Rightarrow> False
           | Inr v \<Rightarrow> v \<noteq> VNone))"

section \<open>\<^verbatim>\<open>EnvironmentLoader\<close>\<close>

text \<open>
  \<^verbatim>\<open>int(value)\<close>, \<^verbatim>\<open>float(value)\<close> and \<^verbatim>\<open>json.loads(value)\<close> belong to Python and are
  parameters. For \<^verbatim>\<open>int\<close> and \<^verbatim>\<open>float\<close> on a string, \<open>None\<close> is the \<open>ValueError\<close>
  that the loader catches. \<^verbatim>\<open>json.loads\<close> returns a value or raises: \<open>Inl ValueError\<close> is
  \<^verbatim>\<open>JSONDecodeError\<close> or \<open>ValueError\<close>, which the loader catches; any other exception, as
  the \<open>RecursionError\<close> of a deeply nested document, is not caught.
\<close>

record pyparse =
  py_int :: "string \<Rightarrow> int option"
  py_float :: "string \<Rightarrow> pyfloat option"
  json_loads :: "string \<Rightarrow> exn + pyval"

definition parse_env_value :: "pyparse \<Rightarrow> string \<Rightarrow> exn + pyval" where
  "parse_env_value P val =
     (if lower val = ''true'' \<or> lower val = ''false'' then Inr (VBool (lower val = ''true''))
      else case py_int P val of
        Some i \<Rightarrow> Inr (VInt i)
      | None \<Rightarrow>
          (case py_float P val of
             Some f \<Rightarrow> Inr (VFloat f)
           | None \<Rightarrow>
               (case json_loads P val of
                  Inr j \<Rightarrow> Inr j
                | Inl e \<Rightarrow> if e = ValueError then Inr (VStr val) else Inl e)))"

text \<open>
  The loop of \<^verbatim>\<open>load\<close> over \<^verbatim>\<open>os.environ.items()\<close>, the environment being the list of
  its (name, value) pairs; \<open>config\<close> is the dictionary built so far. An exception that
  \<^verbatim>\<open>_parse_env_value\<close> lets through leaves \<^verbatim>\<open>load\<close>.
\<close>

fun EnvironmentLoader_loop :: "pyparse \<Rightarrow> string \<Rightarrow> (string \<times> string) list \<Rightarrow> pydict \<Rightarrow> exn + pydict" where
  "EnvironmentLoader_loop P prefix [] config = Inr config"
| "EnvironmentLoader_loop P prefix ((key, val) # rest) config =
     (if prefix \<noteq> [] \<and> \<not> startswith key prefix then EnvironmentLoader_loop P prefix rest config
      else (case parse_env_value P val of
              Inl e \<Rightarrow> Inl e
            | Inr v \<Rightarrow>
                EnvironmentLoader_loop P prefix rest
                  (AList.update (lower (if prefix \<noteq> [] then drop (length prefix) key else key)) v config)))"

definition EnvironmentLoader_load :: "pyparse \<Rightarrow> string \<Rightarrow> (string \<times> string) list \<Rightarrow> exn + pydict" where
  "EnvironmentLoader_load P prefix environ = EnvironmentLoader_loop P prefix environ []"

text \<open>The key that a variable name gives under a prefix.\<close>

definition config_key :: "string \<Rightarrow> string \<Rightarrow> string" where
  "config_key prefix name = lower (drop (length prefix) name)"

section \<open>Dictionaries as objects\<close>

text \<open>
  Above, a dictionary is its contents. That is right as long as no dictionary object is
  reachable twice. \<^verbatim>\<open>backup\<close> and \<^verbatim>\<open>restore\<close> call \<^verbatim>\<open>dict.copy()\<close>, which makes a new
  top-level dictionary holding the same objects, so for them dictionaries are objects in a
  store: a value is \<open>Ref a\<close> for the dictionary at address \<open>a\<close>, or \<open>Val v\<close> for a value
  \<open>v\<close> that is not a dictionary.
\<close>

datatype oval = Val pyval | Ref nat

type_synonym odict = "(string \<times> oval) list"

record store =
  cells :: "(nat \<times> odict) list"
  next_addr :: nat

definition alloc :: "store \<Rightarrow> odict \<Rightarrow> store \<times> nat" where
  "alloc s d =
     (s\<lparr>cells := AList.update (next_addr s) d (cells s), next_addr := Suc (next_addr s)\<rparr>,
      next_addr s)"

text \<open>\<^verbatim>\<open>d.copy()\<close> for the dictionary at address \<open>a\<close>: a new object with the same entries.\<close>

definition dict_copy :: "store \<Rightarrow> nat \<Rightarrow> store \<times> nat" where
  "dict_copy s a = alloc s (case map_of (cells s) a of Some d \<Rightarrow> d | None \<Rightarrow> [])"

text \<open>\<^verbatim>\<open>_set_nested_value\<close> from the dictionary at address \<open>a\<close>: it writes in place.\<close>

fun obj_set_nested_loop :: "store \<Rightarrow> nat \<Rightarrow> string list \<Rightarrow> oval \<Rightarrow> exn + store" where
  "obj_set_nested_loop s a [] val = Inl IndexError"
| "obj_set_nested_loop s a [k] val =
     (case map_of (cells s) a of
        None \<Rightarrow> Inl TypeError
      | Some d \<Rightarrow> Inr (s\<lparr>cells := AList.update a (AList.update k val d) (cells s)\<rparr>))"
| "obj_set_nested_loop s a (k # k' # ks) val =
     (case map_of (cells s) a of
        None \<Rightarrow> Inl TypeError
      | Some d \<Rightarrow>
          (case map_of d k of
             None \<Rightarrow>
               obj_set_nested_loop
                 ((fst (alloc s []))\<lparr>cells :=
                    AList.update a (AList.update k (Ref (snd (alloc s []))) d) (cells (fst (alloc s [])))\<rparr>)
                 (snd (alloc s [])) (k' # ks) val
           | Some (Ref b) \<Rightarrow> obj_set_nested_loop s b (k' # ks) val
           | Some (Val x) \<Rightarrow> Inl TypeError))"

fun obj_get_nested_loop :: "store \<Rightarrow> oval \<Rightarrow> string list \<Rightarrow> oval \<Rightarrow> oval" where
  "obj_get_nested_loop s val [] dflt = val"
| "obj_get_nested_loop s val (k # ks) dflt =
     (case val of
        Val x \<Rightarrow> dflt
      | Ref a \<Rightarrow>
          (case map_of (cells s) a of
             None \<Rightarrow> dflt
           | Some d \<Rightarrow> (case map_of d k of Some v \<Rightarrow> obj_get_nested_loop s v ks dflt | None \<Rightarrow> dflt)))"

text \<open>The part of a configuration object that matters here: the address of \<^verbatim>\<open>self._data\<close>.\<close>

record obj_config =
  data_addr :: nat

definition obj_set_nested_value :: "store \<Rightarrow> obj_config \<Rightarrow> string \<Rightarrow> oval \<Rightarrow> exn + store" where
  "obj_set_nested_value s c key val = obj_set_nested_loop s (data_addr c) (split_dot key) val"

definition obj_get_nested_value :: "store \<Rightarrow> obj_config \<Rightarrow> string \<Rightarrow> oval \<Rightarrow> oval" where
  "obj_get_nested_value s c key dflt = obj_get_nested_loop s (Ref (data_addr c)) (split_dot key) dflt"

text \<open>\<^verbatim>\<open>backup()['data']\<close> is \<^verbatim>\<open>self._data.copy()\<close>; \<^verbatim>\<open>restore\<close> sets \<^verbatim>\<open>self._data\<close> to
  \<^verbatim>\<open>backup['data'].copy()\<close>.\<close>

definition obj_backup :: "store \<Rightarrow> obj_config \<Rightarrow> store \<times> nat" where
  "obj_backup s c = dict_copy s (data_addr c)"

definition obj_restore :: "store \<Rightarrow> obj_config \<Rightarrow> nat \<Rightarrow> store \<times> obj_config" where
  "obj_restore s c snap = (case dict_copy s snap of (s', a) \<Rightarrow> (s', c\<lparr>data_addr := a\<rparr>))"

text \<open>
  \<^verbatim>\<open>b = c.backup()\<close>, then a write to \<open>key\<close> as \<^verbatim>\<open>c.set(key, val)\<close> makes it through
  \<^verbatim>\<open>_set_nested_value\<close>, then \<^verbatim>\<open>c.restore(b)\<close>.
\<close>

definition backup_set_restore :: "store \<Rightarrow> obj_config \<Rightarrow> string \<Rightarrow> oval \<Rightarrow> exn + store \<times> obj_config" where
  "backup_set_restore s c key val =
     (case obj_backup s c of
        (s1, snap) \<Rightarrow>
          (case obj_set_nested_value s1 c key val of
             Inl e \<Rightarrow> Inl e
           | Inr s2 \<Rightarrow> Inr (obj_restore s2 c snap)))"

text \<open>The data \<^verbatim>\<open>{'a': {'b': 1}}\<close>: \<^verbatim>\<open>self._data\<close> at address 0, the inner dictionary at 1.\<close>

definition nested_store :: store where
  "nested_store = \<lparr>cells = [(0, [(''a'', Ref 1)]), (1, [(''b'', Val (VInt 1))])], next_addr = 2\<rparr>"

definition nested_obj :: obj_config where
  "nested_obj = \<lparr>data_addr = 0\<rparr>"

section \<open>Configurations used as examples\<close>

text \<open>A configuration with no plug-in, and one with a \<^verbatim>\<open>MemoryCache\<close>, both just built.\<close>

definition plain_config :: "unit BaseConfig" where
  "plain_config = BaseConfig_init None None None () [] []"

definition cached_config :: "MemoryCache BaseConfig" where
  "cached_config = BaseConfig_init None None (Some MemoryCache_plugin) MemoryCache_init [] []"

text \<open>\<^verbatim>\<open>{'a': 1}\<close>: the segment \<^verbatim>\<open>a\<close> is there and is not a dictionary.\<close>

definition scalar_a_config :: "unit BaseConfig" where
  "scalar_a_config = plain_config\<lparr>data := [(''a'', VInt 1)]\<rparr>"

text \<open>\<^verbatim>\<open>{'port': 8000}\<close> with one observer, made read-only.\<close>

definition readonly_config :: "MemoryCache BaseConfig" where
  "readonly_config =
     set_readonly (add_observer (cached_config\<lparr>data := [(''port'', VInt 8000)]\<rparr>) 7) True"

text \<open>
  An encryptor that can be undone: \<^verbatim>\<open>encrypt\<close> reverses the string and
  \<^verbatim>\<open>decrypt\<close> reverses it back. \<open>secret_config\<close> is a configuration just built with
  this encryptor and no cache.
\<close>

definition reversing_encryption :: IConfigEncryption where
  "reversing_encryption = \<lparr>encrypt = (\<lambda>s. Inr (rev s)), decrypt = (\<lambda>s. Inr (rev s))\<rparr>"

definition secret_config :: "unit BaseConfig" where
  "secret_config = BaseConfig_init None (Some reversing_encryption) None () [] []"

text \<open>A subclass whose defaults have the dotted key \<^verbatim>\<open>a.b\<close>.\<close>

definition dotted_defaults_config :: "unit BaseConfig" where
  "dotted_defaults_config = BaseConfig_init None None None () [(''a.b'', VInt 1)] []"

text \<open>A codec for timestamps: a number \<open>n\<close> is written as \<open>n + 1\<close> marks.\<close>

definition tally_codec :: iso_codec where
  "tally_codec =
     \<lparr>isoformat = (\<lambda>t. replicate (Suc t) CHR ''I''),
      fromisoformat = (\<lambda>s. if s \<noteq> [] \<and> list_all (\<lambda>ch. ch = CHR ''I'') s then Some (length s - 1) else None)\<rparr>"

text \<open>A subclass with the defaults \<^verbatim>\<open>{'host': 'localhost', 'port': 5432}\<close>, just built.\<close>

definition db_defaults_config :: "unit BaseConfig" where
  "db_defaults_config =
     BaseConfig_init None None None () [(''host'', VStr ''localhost''), (''port'', VInt 5432)] []"




text \<open>
  Parsers that read a string of ASCII digits as an integer, which \<^verbatim>\<open>int\<close> does, and
  nothing else.
\<close>

definition digits_value :: "string \<Rightarrow> int option" where
  "digits_value s =
     (if s \<noteq> [] \<and> list_all (\<lambda>ch. 48 \<le> (of_char ch :: nat) \<and> (of_char ch :: nat) \<le> 57) s
      then Some (foldl (\<lambda>n ch. 10 * n + (int (of_char ch) - 48)) 0 s)
      else None)"

definition digit_parsers :: pyparse where
  "digit_parsers =
     \<lparr>py_int = digits_value, py_float = (\<lambda>s. None), json_loads = (\<lambda>s. Inl ValueError)\<rparr>"

text \<open>
  An environment in which two variables differ in case only, a configuration with a
  \<^verbatim>\<open>TypeValidator\<close> that wants an integer under \<^verbatim>\<open>a.b\<close>, and a configuration whose
  \<^verbatim>\<open>MemoryCache\<close> holds 8000 under \<^verbatim>\<open>port\<close> while its data is empty.
\<close>

definition two_ports_environ :: "(string \<times> string) list" where
  "two_ports_environ = [(''APP_PORT'', ''9090''), (''APP_port'', ''1'')]"

definition typed_config :: "unit BaseConfig" where
  "typed_config = BaseConfig_init (Some (TypeValidator [(''a.b'', TInt)])) None None () [] []"

definition warm_cache_config :: "MemoryCache BaseConfig" where
  "warm_cache_config =
     cached_config\<lparr>cache_state := \<lparr>mc_cache = [(''port'', VInt 8000)], mc_ttl = []\<rparr>\<rparr>"

text \<open>
  A read-only configuration with no data whose subclass has the default
  \<^verbatim>\<open>{'host': 'localhost'}\<close>, and a manager that holds it with a plain one.
\<close>

definition locked_config :: "unit BaseConfig" where
  "locked_config =
     set_readonly (BaseConfig_init None None None () [(''host'', VStr ''localhost'')] []) True"

definition two_config_manager :: "unit ConfigManager" where
  "two_config_manager =
     \<lparr>configs = [(''db'', locked_config), (''app'', plain_config)], strategy = LAZY, last_reload = 0\<rparr>"

text \<open>
  A cache whose every method raises, a configuration that has it, and a configuration
  with a \<^verbatim>\<open>HashEncryption\<close> whose key \<^verbatim>\<open>password\<close> is flagged as encrypted.
\<close>

definition failing_cache :: "unit IConfigCache" where
  "failing_cache =
     \<lparr>cache_get = (\<lambda>now key st. (Inl (PluginError ''cache down''), st)),
      cache_set = (\<lambda>now key val ttl st. (Some (PluginError ''cache down''), st)),
      cache_invalidate = (\<lambda>key st. (Some (PluginError ''cache down''), st)),
      cache_clear = (\<lambda>st. (Some (PluginError ''cache down''), st))\<rparr>"

definition failing_cache_config :: "unit BaseConfig" where
  "failing_cache_config =
     (BaseConfig_init None None (Some failing_cache) () [] [])\<lparr>data := [(''port'', VInt 8000)]\<rparr>"

definition hashed_config :: "unit BaseConfig" where
  "hashed_config =
     (BaseConfig_init None (Some (HashEncryption rev)) None () [] [])
       \<lparr>data := [(''password'', VStr ''0f3a'')],
        metadata := [(''password'', (new_metadata MEMORY MEDIUM 0)\<lparr>encrypted := True\<rparr>)]\<rparr>"

section \<open>Properties\<close>

subsection \<open>Paths and the cache\<close>


lemma MemoryCache_coherent: "cache_coherent MemoryCache_plugin"
  by (simp add: cache_coherent_def MemoryCache_plugin_def MemoryCache_get_def MemoryCache_invalidate_def
      delete_conv' split: prod.splits option.splits)

lemma split_dot_nonempty: "split_dot s \<noteq> []"
  by (induction s) (auto split: list.splits)

lemma set_nested_loop_fresh: "ks \<noteq> [] \<Longrightarrow> \<exists>d'. set_nested_loop [] ks v = Inr d'"
  by (induction "[] :: pydict" ks v rule: set_nested_loop.induct) auto

lemma set_nested_loop_writable:
  "path_writable d ks \<Longrightarrow> \<exists>d'. set_nested_loop d ks v = Inr d'"
proof (induction d ks v rule: set_nested_loop.induct)
  case (3 d k k' ks val)
  show ?case
  proof (cases "map_of d k")
    case None
    then show ?thesis using set_nested_loop_fresh[of "k' # ks" val] by auto
  next
    case (Some x)
    then show ?thesis using 3 by (cases x) auto
  qed
qed auto

lemma set_nested_loop_fails:
  "ks \<noteq> [] \<Longrightarrow> \<not> path_writable d ks \<Longrightarrow> set_nested_loop d ks v = Inl TypeError"
proof (induction d ks v rule: set_nested_loop.induct)
  case (3 d k k' ks val)
  show ?case
  proof (cases "map_of d k")
    case None
    then show ?thesis using 3 by auto
  next
    case (Some x)
    then show ?thesis using 3 by (cases x) auto
  qed
qed auto

lemma get_after_set_nested:
  "set_nested_loop d ks v = Inr d' \<Longrightarrow> get_nested_loop (VDict d') ks dflt = v"
proof (induction d ks v arbitrary: d' rule: set_nested_loop.induct)
  case (3 d k k' ks val)
  show ?case
  proof (cases "map_of d k")
    case None
    then show ?thesis using 3 by (auto simp: update_conv' split: sum.splits)
  next
    case (Some x)
    then show ?thesis using 3 by (cases x) (auto simp: update_conv' split: sum.splits)
  qed
qed (auto simp: update_conv')

lemma get_keeps:
  "snd (get c now key dflt) = c\<lparr>cache_state := cache_state (snd (get c now key dflt))\<rparr>"
  by (auto simp: get_def get_body_def get_from_data_def get_cache_store_def Let_def
      split: option.splits prod.splits sum.splits if_splits)

lemma set_value_success:
  assumes "\<not> readonly c" "validator_accepts c key v" "\<not> should_encrypt key" "cache_ok c"
    "path_writable (data c) (split_dot key)"
  shows "\<exists>d' st old. set_nested_loop (data c) (split_dot key) v = Inr d' \<and>
     set_value c now key v None =
       (None, c\<lparr>data := d',
                metadata := AList.update key (new_metadata MEMORY MEDIUM now) (metadata c),
                cache_state := st,
                notifications := notifications c @ map (\<lambda>ob. (ob, key, old, v)) (observers c)\<rparr>) \<and>
     (case cache c of None \<Rightarrow> True | Some ch \<Rightarrow> \<exists>st0. st = snd (cache_invalidate ch key st0))"
proof -
  obtain d' where d': "set_nested_loop (data c) (split_dot key) v = Inr d'"
    using set_nested_loop_writable[OF assms(5)] by blast
  obtain old st1 where g: "get c now key VNone = (old, c\<lparr>cache_state := st1\<rparr>)"
    using get_keeps[of c now key VNone] by (cases "get c now key VNone") auto
  have enc: "\<And>c'. set_encrypt c' key v = Inr v" using assms(3) by (simp add: set_encrypt_def)
  have v: "set_validate c key v = None"
    using assms(2) by (auto simp: validator_accepts_def set_validate_def split: option.splits sum.splits)
  show ?thesis
  proof (cases "cache c")
    case None
    then show ?thesis using assms(1) d' g v
      by (simp add: enc set_value_def set_finish_def set_nested_value_def notify_observers_def Let_def)
        (rule exI[of _ st1], rule exI[of _ old], simp)
  next
    case (Some ch)
    then have inv: "fst (cache_invalidate ch key st1) = None"
      using assms(4) by (simp add: cache_ok_def cache_coherent_def)
    then obtain st where st: "cache_invalidate ch key st1 = (None, st)"
      by (cases "cache_invalidate ch key st1") auto
    show ?thesis using assms(1) d' g v Some st
      apply (simp add: enc set_value_def set_finish_def set_nested_value_def notify_observers_def Let_def)
      apply (rule exI[of _ st], rule conjI, rule exI[of _ old], simp)
      apply (rule exI[of _ st1], simp)
      done
  qed
qed

lemma get_fresh_entry:
  assumes "cache_ok c" "\<not> is_encrypted c key"
    "case cache c of None \<Rightarrow> True | Some ch \<Rightarrow> \<exists>st0. cache_state c = snd (cache_invalidate ch key st0)"
  shows "\<exists>st. get c now key dflt = (get_nested_value c key dflt, c\<lparr>cache_state := st\<rparr>)"
proof (cases "cache c")
  case None
  then show ?thesis using assms(2)
    by (auto simp: get_def get_body_def get_from_data_def get_cache_store_def intro: exI[of _ "cache_state c"])
next
  case (Some ch)
  then obtain st0 where st0: "cache_state c = snd (cache_invalidate ch key st0)" using assms(3) by auto
  have coh: "cache_coherent ch" using assms(1) Some by (simp add: cache_ok_def)
  obtain st1 where g: "cache_get ch now key (cache_state c) = (Inr VNone, st1)"
    using coh st0 unfolding cache_coherent_def
    by (metis fst_conv surj_pair)
  have s: "\<And>val st. \<exists>st'. cache_set ch now key val None st = (None, st')"
    using coh unfolding cache_coherent_def by (metis fst_conv surj_pair)
  show ?thesis
  proof (cases "get_nested_value c key dflt = VNone")
    case True
    then show ?thesis using Some g assms(2)
      by (auto simp: get_def get_body_def get_from_data_def get_cache_store_def is_encrypted_def get_nested_value_def)
  next
    case False
    obtain st' where "cache_set ch now key (get_nested_value c key dflt) None st1 = (None, st')"
      using s by blast
    then show ?thesis using Some g assms(2) False
      by (auto simp: get_def get_body_def get_from_data_def get_cache_store_def is_encrypted_def get_nested_value_def)
  qed
qed

lemma not_sensitive_a_b: "\<not> should_encrypt ''a.b''"
  by (simp add: should_encrypt_def sensitive_patterns_def lower_def lower_char_def)

lemma set_then_get_general:
  assumes "\<not> readonly c" "validator_accepts c key v" "\<not> should_encrypt key" "cache_ok c"
    "path_writable (data c) (split_dot key)"
  shows "\<exists>d' c1 c2. set_nested_loop (data c) (split_dot key) v = Inr d' \<and>
     set_value c now key v None = (None, c1) \<and> data c1 = d' \<and> readonly c1 = readonly c \<and>
     get c1 now' key dflt = (v, c2) \<and> data c2 = d' \<and> readonly c2 = readonly c"
proof -
  from set_value_success[OF assms, of now] obtain d' st old where
    d': "set_nested_loop (data c) (split_dot key) v = Inr d'" and
    s: "set_value c now key v None =
       (None, c\<lparr>data := d',
                metadata := AList.update key (new_metadata MEMORY MEDIUM now) (metadata c),
                cache_state := st,
                notifications := notifications c @ map (\<lambda>ob. (ob, key, old, v)) (observers c)\<rparr>)" and
    st: "(case cache c of None \<Rightarrow> True | Some ch \<Rightarrow> \<exists>st0. st = snd (cache_invalidate ch key st0))"
    by blast
  define c1 where "c1 = c\<lparr>data := d',
                metadata := AList.update key (new_metadata MEMORY MEDIUM now) (metadata c),
                cache_state := st,
                notifications := notifications c @ map (\<lambda>ob. (ob, key, old, v)) (observers c)\<rparr>"
  have ok: "cache_ok c1" using assms(4) by (simp add: c1_def cache_ok_def)
  have ne: "\<not> is_encrypted c1 key"
    by (simp add: c1_def is_encrypted_def update_conv' new_metadata_def)
  have cs: "case cache c1 of None \<Rightarrow> True | Some ch \<Rightarrow> \<exists>st0. cache_state c1 = snd (cache_invalidate ch key st0)"
    using st by (auto simp: c1_def split: option.splits)
  from get_fresh_entry[OF ok ne cs, of now' dflt] obtain st2 where
    g: "get c1 now' key dflt = (get_nested_value c1 key dflt, c1\<lparr>cache_state := st2\<rparr>)" by blast
  have "get_nested_value c1 key dflt = v"
    using get_after_set_nested[OF d'] by (simp add: get_nested_value_def c1_def)
  then show ?thesis using d' s g unfolding c1_def[symmetric] by (simp add: c1_def)
qed

subsection \<open>Read-only configurations\<close>

text \<open>
  C5. On a configuration whose \<open>readonly\<close> flag is set, \<^verbatim>\<open>set(key, value, metadata)\<close> and
  \<^verbatim>\<open>remove_key(key)\<close> raise \<^verbatim>\<open>ConfigException\<close> with the read-only message, for every
  key, value and metadata, and leave the whole object (data, metadata, cache, observers'
  notifications) as it was.
\<close>

theorem readonly_rejects_set_and_remove:
  "readonly c \<Longrightarrow>
     set_value c now key val meta = (Some (ConfigException (readonly_set_message key)), c) \<and>
     remove_key c key = (Some (ConfigException ''Configuration is readonly''), c)"
  by (simp add: set_value_def remove_key_def)

theorem readonly_rejects_set_and_remove_witness:
  "readonly readonly_config \<and>
   set_value readonly_config 5 ''port'' (VInt 9) None =
     (Some (ConfigException (readonly_set_message ''port'')), readonly_config) \<and>
   remove_key readonly_config ''port'' =
     (Some (ConfigException ''Configuration is readonly''), readonly_config)"
proof -
  have r: "readonly readonly_config"
    by (simp add: readonly_config_def set_readonly_def)
  show ?thesis
    using r readonly_rejects_set_and_remove [OF r, of 5 "''port''" "VInt 9" None] by simp
qed

subsection \<open>Writing then reading a key that is not sensitive\<close>

text \<open>
  C8, as the code has it. On a configuration that is not read-only, for a key that does
  not match the sensitive-name patterns and a value that the validator accepts, when every
  segment of the dotted path before the last is missing or leads to a dictionary (and the
  cache, if there is one, does not raise and misses a key just invalidated, as
  \<^verbatim>\<open>MemoryCache\<close> does), \<^verbatim>\<open>set(key, v)\<close> succeeds and \<^verbatim>\<open>get(key, default)\<close> then
  returns \<open>v\<close>, whatever the default.
\<close>

theorem set_then_get_plain:
  assumes "\<not> readonly c" and "validator_accepts c key v" and "\<not> should_encrypt key"
    and "cache_ok c" and "path_writable (data c) (split_dot key)"
  shows "\<exists>c1. set_value c now key v None = (None, c1) \<and> fst (get c1 now' key dflt) = v"
  using set_then_get_general[OF assms, of now now' dflt] by auto

theorem set_then_get_plain_witness:
  "\<not> readonly cached_config \<and> validator_accepts cached_config ''db.host'' (VStr ''localhost'') \<and>
   \<not> should_encrypt ''db.host'' \<and> cache_ok cached_config \<and>
   path_writable (data cached_config) (split_dot ''db.host'') \<and>
   (\<exists>c1. set_value cached_config 3 ''db.host'' (VStr ''localhost'') None = (None, c1) \<and>
      fst (get c1 4 ''db.host'' VNone) = VStr ''localhost'')"
proof -
  have h1: "\<not> readonly cached_config"
    by (simp add: cached_config_def BaseConfig_init_def)
  have h2: "validator_accepts cached_config ''db.host'' (VStr ''localhost'')"
    by (simp add: validator_accepts_def cached_config_def BaseConfig_init_def)
  have h3: "\<not> should_encrypt ''db.host''"
    by (simp add: should_encrypt_def sensitive_patterns_def lower_def lower_char_def)
  have h4: "cache_ok cached_config"
    by (simp add: cache_ok_def cached_config_def BaseConfig_init_def MemoryCache_coherent)
  have h5: "path_writable (data cached_config) (split_dot ''db.host'')"
    by (simp add: cached_config_def BaseConfig_init_def)
  show ?thesis
    using h1 h2 h3 h4 h5 set_then_get_plain [OF h1 h2 h3 h4 h5, of 3 4 VNone] by simp
qed

text \<open>
  C8 as it is stated fails where the path runs into a value that is not a dictionary:
  on \<^verbatim>\<open>{'a': 1}\<close>, \<^verbatim>\<open>set('a.b', 2)\<close> raises \<open>TypeError\<close>, nothing is written, and
  \<^verbatim>\<open>get('a.b')\<close> returns the default.
\<close>

theorem set_then_get_plain_counterexample:
  "\<not> readonly scalar_a_config \<and> \<not> should_encrypt ''a.b'' \<and>
   validator_accepts scalar_a_config ''a.b'' (VInt 2) \<and>
   set_value scalar_a_config 0 ''a.b'' (VInt 2) None = (Some TypeError, scalar_a_config) \<and>
   fst (get scalar_a_config 1 ''a.b'' VNone) = VNone"
  by (simp add: scalar_a_config_def plain_config_def BaseConfig_init_def validator_accepts_def
      should_encrypt_def sensitive_patterns_def lower_def lower_char_def
      set_value_def set_validate_def get_def get_body_def get_from_data_def get_cache_store_def
      get_nested_value_def is_encrypted_def set_encrypt_def set_finish_def set_nested_value_def)

subsection \<open>\<^verbatim>\<open>has_key\<close> and \<^verbatim>\<open>remove_key\<close> look at top-level keys only\<close>

text \<open>
  C10, as the code has it. On a configuration with no data yet that is not read-only,
  whose validator, if there is one, accepts the value \<open>v\<close> under \<^verbatim>\<open>a.b\<close>, and whose
  cache, if there is one, does not raise and misses a key just invalidated (as
  \<^verbatim>\<open>MemoryCache\<close> does): \<^verbatim>\<open>set('a.b', v)\<close> succeeds, \<^verbatim>\<open>get('a.b')\<close> then returns \<open>v\<close>,
  \<^verbatim>\<open>has_key('a.b')\<close> is false, and \<^verbatim>\<open>remove_key('a.b')\<close> raises nothing and leaves the
  object as it was: nothing removed, no observer notified. On every configuration,
  \<^verbatim>\<open>has_key(k)\<close> holds exactly when \<open>k\<close> itself is a key of \<open>data\<close>.
\<close>

theorem has_key_remove_key_top_level:
  assumes "data c = []" and "\<not> readonly c" and "validator_accepts c ''a.b'' v" and "cache_ok c"
  shows "(\<exists>c1 c2. set_value c now ''a.b'' v None = (None, c1) \<and>
            get c1 now' ''a.b'' VNone = (v, c2) \<and>
            \<not> has_key c2 ''a.b'' \<and> remove_key c2 ''a.b'' = (None, c2)) \<and>
         (\<forall>c' :: 'c BaseConfig. \<forall>k. has_key c' k \<longleftrightarrow> (\<exists>x. (k, x) \<in> set (data c')))"
proof -
  have w: "path_writable (data c) (split_dot ''a.b'')" using assms(1) by simp
  from set_then_get_general[OF assms(2,3) not_sensitive_a_b assms(4) w, of now now' VNone]
  obtain d' c1 c2 where
    d': "set_nested_loop (data c) (split_dot ''a.b'') v = Inr d'" and
    s: "set_value c now ''a.b'' v None = (None, c1)" and
    g: "get c1 now' ''a.b'' VNone = (v, c2)" and d2: "data c2 = d'" and r2: "readonly c2 = readonly c"
    by blast
  have dd: "d' = [(''a'', VDict [(''b'', v)])]" using d' assms(1) by simp
  have "\<not> has_key c2 ''a.b''" using d2 dd by (simp add: has_key_def)
  moreover have "remove_key c2 ''a.b'' = (None, c2)"
    using d2 dd r2 assms(2) by (simp add: remove_key_def)
  moreover have "\<forall>c' :: 'c BaseConfig. \<forall>k. has_key c' k \<longleftrightarrow> (\<exists>x. (k, x) \<in> set (data c'))"
    by (force simp: has_key_def)
  ultimately show ?thesis using s g by blast
qed

theorem has_key_remove_key_top_level_witness:
  "data (add_observer cached_config 7) = [] \<and> \<not> readonly (add_observer cached_config 7) \<and>
   validator_accepts (add_observer cached_config 7) ''a.b'' (VInt 1) \<and>
   cache_ok (add_observer cached_config 7) \<and>
   (\<exists>c1 c2. set_value (add_observer cached_config 7) 0 ''a.b'' (VInt 1) None = (None, c1) \<and>
      get c1 1 ''a.b'' VNone = (VInt 1, c2) \<and>
      \<not> has_key c2 ''a.b'' \<and> remove_key c2 ''a.b'' = (None, c2))"
proof -
  have h1: "data (add_observer cached_config 7) = []"
    by (simp add: add_observer_def cached_config_def BaseConfig_init_def)
  have h2: "\<not> readonly (add_observer cached_config 7)"
    by (simp add: add_observer_def cached_config_def BaseConfig_init_def)
  have h3: "validator_accepts (add_observer cached_config 7) ''a.b'' (VInt 1)"
    by (simp add: validator_accepts_def add_observer_def cached_config_def BaseConfig_init_def)
  have h4: "cache_ok (add_observer cached_config 7)"
    by (simp add: cache_ok_def add_observer_def cached_config_def BaseConfig_init_def
        MemoryCache_coherent)
  show ?thesis
    using h1 h2 h3 h4 has_key_remove_key_top_level [OF h1 h2 h3 h4, of 0 1] by blast
qed

text \<open>
  C10 as it is stated fails on a fresh configuration whose validator rejects the value:
  with a \<^verbatim>\<open>TypeValidator\<close> that wants an integer under \<^verbatim>\<open>a.b\<close>, \<^verbatim>\<open>set('a.b', 'x')\<close>
  raises \<^verbatim>\<open>ConfigValidationError\<close> and writes nothing, and \<^verbatim>\<open>get('a.b')\<close> returns
  \<^verbatim>\<open>None\<close>, not the value.
\<close>

theorem has_key_remove_key_top_level_counterexample:
  "data typed_config = [] \<and> \<not> readonly typed_config \<and>
   set_value typed_config 0 ''a.b'' (VStr ''x'') None =
     (Some (ConfigValidationError ''a.b'' [MustBeOfType ''a.b'' TInt]), typed_config) \<and>
   fst (get typed_config 1 ''a.b'' VNone) = VNone"
  by (simp add: typed_config_def BaseConfig_init_def TypeValidator_def TypeValidator_validate_def
      set_value_def set_validate_def get_def get_body_def get_from_data_def get_cache_store_def
      get_nested_value_def is_encrypted_def)

subsection \<open>Writing then reading a sensitive key\<close>

text \<open>
  With any encryptor and no cache, what \<^verbatim>\<open>get\<close> returns after a \<^verbatim>\<open>set\<close> of a sensitive
  key is the ciphertext that \<^verbatim>\<open>set\<close> stored.
\<close>

lemma sensitive_get_returns_ciphertext:
  assumes "\<not> readonly c" and "validator_accepts c key v" and "should_encrypt key"
    and "encryption c = Some enc" and "encrypt enc (py_str v) = Inr cipher" and "cache c = None"
    and "path_writable (data c) (split_dot key)"
  shows "\<exists>c1. set_value c now key v None = (None, c1) \<and> fst (get c1 now' key dflt) = VStr cipher"
proof -
  obtain d' where d': "set_nested_loop (data c) (split_dot key) (VStr cipher) = Inr d'"
    using set_nested_loop_writable[OF assms(7)] by blast
  obtain old st1 where g: "get c now key VNone = (old, c\<lparr>cache_state := st1\<rparr>)"
    using get_keeps[of c now key VNone] by (cases "get c now key VNone") auto
  have enc: "\<And>st. set_encrypt (c\<lparr>cache_state := st\<rparr>) key v = Inr (VStr cipher)"
    using assms(3,4,5) by (simp add: set_encrypt_def)
  have v: "set_validate c key v = None"
    using assms(2) by (auto simp: validator_accepts_def set_validate_def split: option.splits sum.splits)
  let ?c1 = "notify_observers
     (c\<lparr>cache_state := st1, data := d',
        metadata := AList.update key (new_metadata MEMORY MEDIUM now) (metadata c)\<rparr>) key old (VStr cipher)"
  have s: "set_value c now key v None = (None, ?c1)"
    using assms(1,6) d' g v
    by (simp add: enc set_value_def set_finish_def set_nested_value_def Let_def)
  have "get_nested_value ?c1 key dflt = VStr cipher"
    using get_after_set_nested[OF d'] by (simp add: get_nested_value_def notify_observers_def)
  moreover have "\<not> is_encrypted ?c1 key"
    by (simp add: is_encrypted_def notify_observers_def update_conv' new_metadata_def)
  moreover have "cache ?c1 = None" using assms(6) by (simp add: notify_observers_def)
  ultimately have "fst (get ?c1 now' key dflt) = VStr cipher"
    by (simp add: get_def get_body_def get_from_data_def get_cache_store_def)
  then show ?thesis using s by blast
qed

text \<open>
  C1 fails on the code. With an encryptor that can be undone and no cache,
  \<^verbatim>\<open>set('password', 'hunter2')\<close> stores the ciphertext and writes the default metadata,
  whose \<open>encrypted\<close> flag is false; \<^verbatim>\<open>get('password')\<close> decrypts only when that flag is
  true, so it returns the ciphertext and not the value that was set.
\<close>

theorem sensitive_round_trip_broken:
  "should_encrypt ''password'' \<and>
   fst (set_value secret_config 0 ''password'' (VStr ''hunter2'') None) = None \<and>
   data (snd (set_value secret_config 0 ''password'' (VStr ''hunter2'') None)) =
     [(''password'', VStr ''2retnuh'')] \<and>
   map_of (metadata (snd (set_value secret_config 0 ''password'' (VStr ''hunter2'') None))) ''password'' =
     Some (new_metadata MEMORY MEDIUM 0) \<and>
   \<not> encrypted (new_metadata MEMORY MEDIUM 0) \<and>
   fst (get (snd (set_value secret_config 0 ''password'' (VStr ''hunter2'') None)) 1 ''password'' VNone) =
     VStr ''2retnuh''"
  by (simp add: secret_config_def BaseConfig_init_def reversing_encryption_def
      should_encrypt_def sensitive_patterns_def lower_def lower_char_def
      set_value_def set_validate_def get_def get_body_def get_from_data_def get_cache_store_def
      get_nested_value_def is_encrypted_def set_encrypt_def set_finish_def set_nested_value_def
      notify_observers_def new_metadata_def py_str_def)

subsection \<open>\<^verbatim>\<open>load_defaults\<close>\<close>

lemma loop_keeps_fields:
  "default_values (load_defaults_loop c now ds) = default_values c"
  "readonly (load_defaults_loop c now ds) = readonly c"
  by (induction c now ds rule: load_defaults_loop.induct) auto

lemma loop_keys_mono:
  "k \<in> fst ` set (data c) \<Longrightarrow> k \<in> fst ` set (data (load_defaults_loop c now ds))"
  by (induction c now ds rule: load_defaults_loop.induct) (auto simp: dom_update)

lemma loop_keys_all:
  "k \<in> fst ` set ds \<Longrightarrow> k \<in> fst ` set (data (load_defaults_loop c now ds))"
proof (induction c now ds rule: load_defaults_loop.induct)
  case (2 c now key val rest)
  then show ?case
    by (auto simp: dom_update intro: loop_keys_mono)
qed simp

lemma loop_noop:
  "fst ` set ds \<subseteq> fst ` set (data c) \<Longrightarrow> load_defaults_loop c now ds = c"
  by (induction c now ds rule: load_defaults_loop.induct) auto

lemma loop_data_kept:
  "k \<in> fst ` set (data c) \<Longrightarrow>
   map_of (data (load_defaults_loop c now ds)) k = map_of (data c) k \<and>
   map_of (metadata (load_defaults_loop c now ds)) k = map_of (metadata c) k"
proof (induction c now ds rule: load_defaults_loop.induct)
  case (2 c now key val rest)
  then show ?case by (auto simp: dom_update update_conv')
qed simp

lemma loop_metadata_kept:
  "k \<notin> fst ` set ds \<Longrightarrow>
   map_of (metadata (load_defaults_loop c now ds)) k = map_of (metadata c) k"
proof (induction c now ds rule: load_defaults_loop.induct)
  case (2 c now key val rest)
  then show ?case by (auto simp: update_conv')
qed simp

lemma load_defaults_twice:
  "load_defaults (load_defaults c now) now' = load_defaults c now"
proof -
  let ?c' = "load_defaults c now"
  have "fst ` set (default_values ?c') \<subseteq> fst ` set (data ?c')"
    using loop_keys_all[of _ "default_values c" c now]
    by (auto simp: load_defaults_def loop_keeps_fields)
  then have "load_defaults_loop ?c' now' (default_values ?c') = ?c'"
    by (rule loop_noop)
  then show ?thesis
    by (simp add: load_defaults_def[of ?c'] ) (simp add: load_defaults_def)
qed

lemma set_nested_loop_head:
  "set_nested_loop d ks v = Inr d' \<Longrightarrow> hd ks \<in> fst ` set d'"
  by (induction d ks v arbitrary: d' rule: set_nested_loop.induct)
     (auto simp: dom_update split: option.splits pyval.splits sum.splits)

lemma get_nested_loop_head:
  "ks \<noteq> [] \<Longrightarrow> map_of d (hd ks) = map_of d' (hd ks) \<Longrightarrow>
   get_nested_loop (VDict d) ks dflt = get_nested_loop (VDict d') ks dflt"
  by (cases ks) auto

lemma set_value_head:
  assumes "set_value c0 t key v m = (None, c)"
  shows "hd (split_dot key) \<in> fst ` set (data c)"
proof -
  from assms obtain d0 v' where "set_nested_loop d0 (split_dot key) v' = Inr (data c)"
    by (auto simp: set_value_def set_finish_def set_nested_value_def notify_observers_def Let_def
        split: if_splits option.splits prod.splits sum.splits)
  then show ?thesis by (rule set_nested_loop_head)
qed

text \<open>
  C6, as the code has it. Calling \<^verbatim>\<open>load_defaults\<close> twice leaves the object as calling it
  once does. A key that is a top-level key of \<open>data\<close> keeps its value and its metadata.
  A key written by a \<^verbatim>\<open>set\<close> that succeeded, dotted or not, keeps the value found at its
  path, and keeps its metadata when it is a top-level key of \<open>data\<close> or is not a key of
  the defaults.
\<close>

theorem load_defaults_idempotent:
  "load_defaults (load_defaults c now) now' = load_defaults c now \<and>
   (\<forall>k. k \<in> fst ` set (data c) \<longrightarrow>
      map_of (data (load_defaults c now)) k = map_of (data c) k \<and>
      map_of (metadata (load_defaults c now)) k = map_of (metadata c) k) \<and>
   (\<forall>c0 t key v m dflt. set_value c0 t key v m = (None, c) \<longrightarrow>
      get_nested_value (load_defaults c now) key dflt = get_nested_value c key dflt \<and>
      (key \<in> fst ` set (data c) \<or> key \<notin> fst ` set (default_values c) \<longrightarrow>
         map_of (metadata (load_defaults c now)) key = map_of (metadata c) key))"
proof (intro conjI allI impI)
  show "load_defaults (load_defaults c now) now' = load_defaults c now"
    by (rule load_defaults_twice)
next
  fix k assume "k \<in> fst ` set (data c)"
  then show "map_of (data (load_defaults c now)) k = map_of (data c) k"
    and "map_of (metadata (load_defaults c now)) k = map_of (metadata c) k"
    using loop_data_kept[of k c now "default_values c"] by (simp_all add: load_defaults_def)
next
  fix c0 :: "'a BaseConfig" and t key v m dflt
  assume s: "set_value c0 t key v m = (None, c)"
  have h: "hd (split_dot key) \<in> fst ` set (data c)" using s by (rule set_value_head)
  have "map_of (data (load_defaults c now)) (hd (split_dot key)) = map_of (data c) (hd (split_dot key))"
    using loop_data_kept[OF h, of now "default_values c"] by (simp add: load_defaults_def)
  then show "get_nested_value (load_defaults c now) key dflt = get_nested_value c key dflt"
    unfolding get_nested_value_def
    by (intro get_nested_loop_head split_dot_nonempty) simp
next
  fix c0 :: "'a BaseConfig" and t key v m dflt
  assume "key \<in> fst ` set (data c) \<or> key \<notin> fst ` set (default_values c)"
  then show "map_of (metadata (load_defaults c now)) key = map_of (metadata c) key"
    using loop_data_kept[of key c now "default_values c"]
      loop_metadata_kept[of key "default_values c" c now]
    by (auto simp: load_defaults_def)
qed

theorem load_defaults_idempotent_witness:
  "set_value db_defaults_config 0 ''port'' (VInt 9090) None =
     (None, db_defaults_config\<lparr>data := [(''port'', VInt 9090)],
                               metadata := [(''port'', new_metadata MEMORY MEDIUM 0)]\<rparr>) \<and>
   ''port'' \<in> fst ` set (data (db_defaults_config\<lparr>data := [(''port'', VInt 9090)],
                               metadata := [(''port'', new_metadata MEMORY MEDIUM 0)]\<rparr>)) \<and>
   map_of (data (load_defaults (db_defaults_config\<lparr>data := [(''port'', VInt 9090)],
                               metadata := [(''port'', new_metadata MEMORY MEDIUM 0)]\<rparr>) 1)) ''port'' =
     Some (VInt 9090) \<and>
   map_of (metadata (load_defaults (db_defaults_config\<lparr>data := [(''port'', VInt 9090)],
                               metadata := [(''port'', new_metadata MEMORY MEDIUM 0)]\<rparr>) 1)) ''port'' =
     Some (new_metadata MEMORY MEDIUM 0) \<and>
   map_of (data (load_defaults (db_defaults_config\<lparr>data := [(''port'', VInt 9090)],
                               metadata := [(''port'', new_metadata MEMORY MEDIUM 0)]\<rparr>) 1)) ''host'' =
     Some (VStr ''localhost'')"
proof -
  let ?c = "db_defaults_config\<lparr>data := [(''port'', VInt 9090)],
                               metadata := [(''port'', new_metadata MEMORY MEDIUM 0)]\<rparr>"
  have s: "set_value db_defaults_config 0 ''port'' (VInt 9090) None = (None, ?c)"
    by (simp add: db_defaults_config_def BaseConfig_init_def
        should_encrypt_def sensitive_patterns_def lower_def lower_char_def
        set_value_def set_validate_def get_def get_body_def get_from_data_def get_cache_store_def
        get_nested_value_def is_encrypted_def set_encrypt_def set_finish_def set_nested_value_def
        notify_observers_def)
  have k: "''port'' \<in> fst ` set (data ?c)" by simp
  have h: "map_of (data (load_defaults ?c 1)) ''host'' = Some (VStr ''localhost'')"
    by (simp add: load_defaults_def db_defaults_config_def BaseConfig_init_def)
  from load_defaults_idempotent [of ?c 1 2] k
  have "map_of (data (load_defaults ?c 1)) ''port'' = map_of (data ?c) ''port''"
    and "map_of (metadata (load_defaults ?c 1)) ''port'' = map_of (metadata ?c) ''port''"
    by blast+
  then show ?thesis using s k h by simp
qed

text \<open>
  C6 as it is stated fails for a dotted key that is also a key of the defaults:
  after \<^verbatim>\<open>set('a.b', 2)\<close> the data is \<^verbatim>\<open>{'a': {'b': 2}}\<close>, where \<^verbatim>\<open>'a.b'\<close> is not a
  top-level key, so \<^verbatim>\<open>load_defaults\<close> adds the default under \<^verbatim>\<open>'a.b'\<close> and replaces
  the metadata that \<^verbatim>\<open>set\<close> wrote for it.
\<close>

theorem load_defaults_idempotent_counterexample:
  "fst (set_value dotted_defaults_config 5 ''a.b'' (VInt 2) None) = None \<and>
   map_of (metadata (snd (set_value dotted_defaults_config 5 ''a.b'' (VInt 2) None))) ''a.b'' =
     Some (new_metadata MEMORY MEDIUM 5) \<and>
   map_of (metadata (load_defaults (snd (set_value dotted_defaults_config 5 ''a.b'' (VInt 2) None)) 9)) ''a.b'' =
     Some (new_metadata MEMORY LOW 9) \<and>
   new_metadata MEMORY MEDIUM 5 \<noteq> new_metadata MEMORY LOW 9"
  by (simp add: dotted_defaults_config_def BaseConfig_init_def
      should_encrypt_def sensitive_patterns_def lower_def lower_char_def
      set_value_def set_validate_def get_def get_body_def get_from_data_def get_cache_store_def
      get_nested_value_def is_encrypted_def set_encrypt_def set_finish_def set_nested_value_def
      notify_observers_def load_defaults_def new_metadata_def)

subsection \<open>\<^verbatim>\<open>backup\<close> and \<^verbatim>\<open>restore\<close>\<close>

text \<open>
  On values, restoring a snapshot that was just taken gives back the data and every
  metadata record, on any target, when \<^verbatim>\<open>fromisoformat\<close> undoes \<^verbatim>\<open>isoformat\<close>.
\<close>

lemma update_fresh: "k \<notin> fst ` set al \<Longrightarrow> AList.update k v al = al @ [(k, v)]"
  by (induction al) auto

lemma ConfigSource_of_value: "ConfigSource_of (ConfigSource_value s) = Some s"
  by (cases s) (simp_all add: ConfigSource_of_def)

lemma ConfigPriority_of_value: "ConfigPriority_of (ConfigPriority_value p) = Some p"
  by (cases p) (simp_all add: ConfigPriority_of_def)

lemma restore_backup_entry:
  assumes "\<forall>t. fromisoformat codec (isoformat codec t) = Some t \<and> isoformat codec t \<noteq> []"
  shows "restore_entry codec (backup_entry codec v) = Inr v"
  using assms
  by (cases "updated_at v")
     (simp_all add: restore_entry_def backup_entry_def ConfigSource_of_value ConfigPriority_of_value)

lemma restore_loop_backup:
  assumes "\<forall>t. fromisoformat codec (isoformat codec t) = Some t \<and> isoformat codec t \<noteq> []"
  shows "distinct (map fst (metadata c @ ms)) \<Longrightarrow>
     restore_loop codec c (map (\<lambda>(k, v). (k, backup_entry codec v)) ms) =
       (None, c\<lparr>metadata := metadata c @ ms\<rparr>)"
proof (induction ms arbitrary: c)
  case Nil
  then show ?case by simp
next
  case (Cons kv ms)
  obtain k v where kv: "kv = (k, v)" by (cases kv)
  have fresh: "k \<notin> fst ` set (metadata c)" using Cons.prems kv by auto
  have d: "distinct (map fst (metadata (c\<lparr>metadata := metadata c @ [(k, v)]\<rparr>) @ ms))"
    using Cons.prems kv by auto
  show ?case
    using Cons.IH[OF d] kv by (simp add: restore_backup_entry[OF assms] update_fresh[OF fresh])
qed

lemma restore_backup_values:
  assumes "\<forall>t. fromisoformat codec (isoformat codec t) = Some t \<and> isoformat codec t \<noteq> []"
    and "distinct (map fst (metadata s))"
  shows "restore codec t (backup codec s) = (None, t\<lparr>data := data s, metadata := metadata s\<rparr>)"
  using restore_loop_backup[OF assms(1), of "t\<lparr>data := data s, metadata := []\<rparr>" "metadata s"] assms(2)
  by (simp add: restore_def backup_def)

lemma tally_codec_round_trip:
  "\<forall>t. fromisoformat tally_codec (isoformat tally_codec t) = Some t \<and> isoformat tally_codec t \<noteq> []"
  by (simp add: tally_codec_def list_all_iff)

text \<open>
  C9 fails on the code when a nested mapping is written between the backup and the
  restore. The snapshot's \<^verbatim>\<open>data\<close> is \<^verbatim>\<open>self._data.copy()\<close>, a new top-level dictionary
  that holds the same inner dictionaries. On \<^verbatim>\<open>{'a': {'b': 1}}\<close>, after
  \<^verbatim>\<open>b = c.backup()\<close> the write of 2 under \<^verbatim>\<open>a.b\<close> changes the inner dictionary that the
  snapshot holds too, and \<^verbatim>\<open>c.restore(b)\<close> brings back 2, not the 1 of backup time.
\<close>

theorem backup_shares_nested_mappings:
  "obj_get_nested_value nested_store nested_obj ''a.b'' (Val VNone) = Val (VInt 1) \<and>
   backup_set_restore nested_store nested_obj ''a.b'' (Val (VInt 2)) =
     Inr (\<lparr>cells = [(0, [(''a'', Ref 1)]), (1, [(''b'', Val (VInt 2))]),
                    (2, [(''a'', Ref 1)]), (3, [(''a'', Ref 1)])], next_addr = 4\<rparr>,
          \<lparr>data_addr = 3\<rparr>) \<and>
   obj_get_nested_value
     \<lparr>cells = [(0, [(''a'', Ref 1)]), (1, [(''b'', Val (VInt 2))]),
               (2, [(''a'', Ref 1)]), (3, [(''a'', Ref 1)])], next_addr = 4\<rparr>
     \<lparr>data_addr = 3\<rparr> ''a.b'' (Val VNone) = Val (VInt 2)"
  by (simp add: nested_store_def nested_obj_def backup_set_restore_def obj_backup_def obj_restore_def
      dict_copy_def alloc_def obj_set_nested_value_def obj_get_nested_value_def)

subsection \<open>\<^verbatim>\<open>validate\<close> gathers every failure\<close>







subsection \<open>Bulk operations of the manager\<close>

lemma load_all_loop_closed:
  "load_all_loop cs now errors =
     (errors @ load_failures cs now,
      map (\<lambda>(name, config). (name, if loaded config then config else snd (load config now))) cs)"
proof (induction cs arbitrary: errors)
  case Nil
  then show ?case by (simp add: load_failures_def)
next
  case (Cons nc cs)
  obtain name config where nc: "nc = (name, config)" by (cases nc)
  show ?case unfolding nc
    by (cases "load config now") (auto simp: Cons.IH load_failures_def split: option.splits)
qed

lemma validate_all_loop_closed:
  "validate_all_loop cs errors =
     (errors @ validate_failures cs, map (\<lambda>(name, config). (name, snd (validate config))) cs)"
proof (induction cs arbitrary: errors)
  case Nil
  then show ?case by (simp add: validate_failures_def)
next
  case (Cons nc cs)
  obtain name config where nc: "nc = (name, config)" by (cases nc)
  show ?case unfolding nc
    by (cases "validate config") (auto simp: Cons.IH validate_failures_def)
qed

lemma reload_all_loop_closed:
  "reload_all_loop cs now =
     (reload_failures cs now, map (\<lambda>(name, config). (name, snd (reload config now))) cs)"
proof (induction cs)
  case Nil
  then show ?case by (simp add: reload_failures_def)
next
  case (Cons nc cs)
  obtain name config where nc: "nc = (name, config)" by (cases nc)
  show ?case unfolding nc
    by (cases "reload config now") (auto simp: Cons.IH reload_failures_def split: option.splits)
qed

lemma locked_reload:
  "reload locked_config 3 =
     (Some (ConfigLoadError (ConfigException (readonly_set_message ''host''))),
      locked_config)"
  by (simp add: locked_config_def set_readonly_def BaseConfig_init_def reload_def load_def
      set_value_def)

lemma plain_reload: "fst (reload plain_config 3) = None"
  by (simp add: plain_config_def BaseConfig_init_def reload_def load_def validate_def missing_keys_def)

text \<open>
  C3, as the code has it. \<^verbatim>\<open>load_all\<close>, \<^verbatim>\<open>validate_all\<close> and \<^verbatim>\<open>reload_all\<close> each call
  every registered object, whatever happened to the ones before it. \<^verbatim>\<open>load_all\<close> raises
  one \<^verbatim>\<open>ConfigLoadError\<close> that lists every object whose load failed, and raises nothing
  when none failed; \<^verbatim>\<open>validate_all\<close> logs every name whose validation failed and returns
  true exactly when there is none; \<^verbatim>\<open>reload_all\<close> logs every failure of a reload and
  raises nothing.
\<close>

theorem bulk_operations_visit_every_config:
  "fst (load_all m now) =
     (if load_failures (configs m) now = [] then None
      else Some (ConfigLoadErrors (load_failures (configs m) now))) \<and>
   configs (snd (load_all m now)) =
     map (\<lambda>(name, config). (name, if loaded config then config else snd (load config now))) (configs m) \<and>
   fst (validate_all m) = (validate_failures (configs m) = []) \<and>
   validate_all_errors m = validate_failures (configs m) \<and>
   configs (snd (validate_all m)) =
     map (\<lambda>(name, config). (name, snd (validate config))) (configs m) \<and>
   fst (reload_all m now) = None \<and>
   reload_all_logged m now = reload_failures (configs m) now \<and>
   configs (snd (reload_all m now)) =
     map (\<lambda>(name, config). (name, snd (reload config now))) (configs m)"
  by (simp add: load_all_def validate_all_def validate_all_errors_def reload_all_def
      reload_all_logged_def load_all_loop_closed validate_all_loop_closed reload_all_loop_closed)

theorem bulk_operations_visit_every_config_witness:
  "reload_all_logged two_config_manager 3 =
     [(''db'', ConfigLoadError (ConfigException (readonly_set_message ''host'')))] \<and>
   fst (reload_all two_config_manager 3) = None \<and>
   fst (load_all two_config_manager 3) =
     Some (ConfigLoadErrors [(''db'', ConfigLoadError (ConfigException (readonly_set_message ''host'')))]) \<and>
   map fst (configs (snd (load_all two_config_manager 3))) = [''db'', ''app''] \<and>
   loaded (snd (load plain_config 3))"
proof -
  have l1: "load locked_config 3 =
      (Some (ConfigLoadError (ConfigException (readonly_set_message ''host''))), locked_config)"
    by (simp add: locked_config_def set_readonly_def BaseConfig_init_def load_def set_value_def)
  have l2: "load plain_config 3 = (None, plain_config\<lparr>loaded := True\<rparr>)"
    by (simp add: plain_config_def BaseConfig_init_def load_def)
  have n1: "\<not> loaded locked_config" "\<not> loaded plain_config"
    by (simp_all add: locked_config_def set_readonly_def plain_config_def BaseConfig_init_def)
  have lf: "load_failures (configs two_config_manager) 3 =
      [(''db'', ConfigLoadError (ConfigException (readonly_set_message ''host'')))]"
    by (simp add: load_failures_def two_config_manager_def l1 l2 n1)
  have rf: "reload_failures (configs two_config_manager) 3 =
      [(''db'', ConfigLoadError (ConfigException (readonly_set_message ''host'')))]"
    by (simp add: reload_failures_def two_config_manager_def locked_reload plain_reload)
  show ?thesis
    using bulk_operations_visit_every_config [of two_config_manager 3] lf rf l2
    by (simp add: two_config_manager_def)
qed

text \<open>
  C3 as it is stated fails for \<^verbatim>\<open>reload_all\<close>: the reload of the read-only object
  raises \<^verbatim>\<open>ConfigLoadError\<close>, and \<^verbatim>\<open>reload_all\<close> on a manager that holds it raises
  nothing.
\<close>

theorem bulk_operations_counterexample:
  "fst (reload locked_config 3) =
     Some (ConfigLoadError (ConfigException (readonly_set_message ''host''))) \<and>
   map_of (configs two_config_manager) ''db'' = Some locked_config \<and>
   fst (reload_all two_config_manager 3) = None"
  by (simp add: locked_reload two_config_manager_def reload_all_def split: prod.splits)

subsection \<open>Reading never raises\<close>

lemma get_nested_loop_unresolved:
  "\<not> path_resolves val ks \<Longrightarrow> get_nested_loop val ks dflt = dflt"
  by (induction val ks dflt rule: get_nested_loop.induct) (auto split: pyval.splits option.splits)

lemma get_body_raises: "fst (get_body c now key dflt) = Inl e \<Longrightarrow> fst (get c now key dflt) = dflt"
  by (auto simp: get_def split: prod.splits sum.splits)

lemma get_cache_store_value:
  "fst (get_cache_store c now key val) = Inr v \<Longrightarrow> v = val"
  by (auto simp: get_cache_store_def split: option.splits if_splits prod.splits)

lemma get_cache_store_default:
  "(case get_cache_store c now key dflt of (Inl e, c') \<Rightarrow> dflt | (Inr v, c') \<Rightarrow> v) = dflt"
  using get_cache_store_value[where c=c and now=now and key=key and val=dflt]
  by (cases "get_cache_store c now key dflt") (auto split: sum.splits)

lemma get_from_data_unresolved:
  assumes "\<not> path_resolves (VDict (data c)) (split_dot key)" "\<not> is_encrypted c key \<or> encryption c = None"
  shows "(case get_from_data c now key dflt of (Inl e, c') \<Rightarrow> dflt | (Inr v, c') \<Rightarrow> v) = dflt"
proof -
  have v: "get_nested_value c key dflt = dflt"
    using assms(1) by (simp add: get_nested_value_def get_nested_loop_unresolved)
  have "get_from_data c now key dflt = get_cache_store c now key dflt"
    using assms(2) v by (auto simp: get_from_data_def)
  then show ?thesis using get_cache_store_default[where c=c and now=now and key=key and dflt=dflt] by simp
qed

lemma get_unresolved:
  assumes "\<not> cache_hit c now key" "\<not> path_resolves (VDict (data c)) (split_dot key)"
    "\<not> is_encrypted c key \<or> encryption c = None"
  shows "fst (get c now key dflt) = dflt"
proof (cases "cache c")
  case None
  then show ?thesis using get_from_data_unresolved[OF assms(2,3), where now=now and dflt=dflt]
    by (auto simp: get_def get_body_def split: prod.splits sum.splits)
next
  case (Some ch)
  obtain r st where g: "cache_get ch now key (cache_state c) = (r, st)"
    by (cases "cache_get ch now key (cache_state c)")
  let ?c = "c\<lparr>cache_state := st\<rparr>"
  have a: "\<not> path_resolves (VDict (data ?c)) (split_dot key)" using assms(2) by simp
  have b: "\<not> is_encrypted ?c key \<or> encryption ?c = None" using assms(3) by (simp add: is_encrypted_def)
  show ?thesis
  proof (cases r)
    case (Inl e)
    then show ?thesis using Some g by (simp add: get_def get_body_def)
  next
    case (Inr v)
    then have "v = VNone" using assms(1) Some g by (simp add: cache_hit_def)
    then show ?thesis using Some g Inr get_from_data_unresolved[OF a b, where now=now and dflt=dflt]
      by (auto simp: get_def get_body_def split: prod.splits sum.splits)
  qed
qed

lemma get_decrypt_raises:
  assumes "\<not> cache_hit c now key" "is_encrypted c key" "encryption c = Some enc"
    "decrypt enc (py_str (get_nested_value c key dflt)) = Inl e"
  shows "fst (get c now key dflt) = dflt"
proof (cases "cache c")
  case None
  then show ?thesis using assms
    by (simp add: get_def get_body_def get_from_data_def)
next
  case (Some ch)
  obtain r st where g: "cache_get ch now key (cache_state c) = (r, st)"
    by (cases "cache_get ch now key (cache_state c)")
  show ?thesis
  proof (cases r)
    case (Inl e)
    then show ?thesis using Some g by (simp add: get_def get_body_def)
  next
    case (Inr v)
    then have "v = VNone" using assms(1) Some g by (simp add: cache_hit_def)
    then show ?thesis using Some g Inr assms(2,3,4)
      by (simp add: get_def get_body_def get_from_data_def is_encrypted_def get_nested_value_def)
  qed
qed

text \<open>
  C2, as the code has it. \<^verbatim>\<open>get\<close> returns a value in every case: an exception inside
  its body gives the caller's default, in particular when the cache lookup raises and when
  the key is flagged as encrypted and the decryptor raises. A value that the cache holds
  for the key (one that is not \<^verbatim>\<open>None\<close>) is returned as it is. When the cache holds no value
  for the key and no decryption applies (the key is not flagged as encrypted, or there is no
  encryptor), a path that is missing or that runs through a value that is not a dictionary
  gives the default, whether or not the cache then accepts it. \<^verbatim>\<open>get_config_value\<close>
  gives the default when \<^verbatim>\<open>get_config\<close> raises, and otherwise what \<^verbatim>\<open>get\<close> of that
  object gives.
\<close>

theorem get_falls_back_to_default:
  "(fst (get_body c now key dflt) = Inl e \<longrightarrow> fst (get c now key dflt) = dflt) \<and>
   (cache c = Some ch \<and> fst (cache_get ch now key (cache_state c)) = Inl e \<longrightarrow>
      fst (get c now key dflt) = dflt) \<and>
   (cache c = Some ch \<and> fst (cache_get ch now key (cache_state c)) = Inr v \<and> v \<noteq> VNone \<longrightarrow>
      fst (get c now key dflt) = v) \<and>
   (\<not> cache_hit c now key \<and> is_encrypted c key \<and> encryption c = Some enc \<and>
    decrypt enc (py_str (get_nested_value c key dflt)) = Inl e \<longrightarrow>
      fst (get c now key dflt) = dflt) \<and>
   (\<not> cache_hit c now key \<and> \<not> path_resolves (VDict (data c)) (split_dot key) \<and>
    (\<not> is_encrypted c key \<or> encryption c = None) \<longrightarrow>
      fst (get c now key dflt) = dflt) \<and>
   (fst (get_config m now name) = Inl e \<longrightarrow> fst (get_config_value m now name key dflt) = dflt) \<and>
   (fst (get_config m now name) = Inr config \<longrightarrow>
      fst (get_config_value m now name key dflt) = fst (get config now key dflt))"
proof (intro conjI impI)
  assume "fst (get_body c now key dflt) = Inl e"
  then show "fst (get c now key dflt) = dflt" by (rule get_body_raises)
next
  assume "cache c = Some ch \<and> fst (cache_get ch now key (cache_state c)) = Inl e"
  then show "fst (get c now key dflt) = dflt"
    by (auto simp: get_def get_body_def split: prod.splits sum.splits)
next
  assume "cache c = Some ch \<and> fst (cache_get ch now key (cache_state c)) = Inr v \<and> v \<noteq> VNone"
  then show "fst (get c now key dflt) = v"
    by (auto simp: get_def get_body_def split: prod.splits sum.splits)
next
  assume "\<not> cache_hit c now key \<and> is_encrypted c key \<and> encryption c = Some enc \<and>
    decrypt enc (py_str (get_nested_value c key dflt)) = Inl e"
  then show "fst (get c now key dflt) = dflt" using get_decrypt_raises by blast
next
  assume "\<not> cache_hit c now key \<and> \<not> path_resolves (VDict (data c)) (split_dot key) \<and>
    (\<not> is_encrypted c key \<or> encryption c = None)"
  then show "fst (get c now key dflt) = dflt" using get_unresolved by blast
next
  assume "fst (get_config m now name) = Inl e"
  then show "fst (get_config_value m now name key dflt) = dflt"
    by (auto simp: get_config_value_def split: prod.splits sum.splits)
next
  assume "fst (get_config m now name) = Inr config"
  then show "fst (get_config_value m now name key dflt) = fst (get config now key dflt)"
    by (auto simp: get_config_value_def split: prod.splits sum.splits)
qed

theorem get_falls_back_to_default_witness:
  "(cache failing_cache_config = Some failing_cache \<and>
    fst (cache_get failing_cache 0 ''port'' (cache_state failing_cache_config)) = Inl (PluginError ''cache down'') \<and>
    fst (get failing_cache_config 0 ''port'' (VInt 1)) = VInt 1) \<and>
   (cache warm_cache_config = Some MemoryCache_plugin \<and>
    fst (cache_get MemoryCache_plugin 0 ''port'' (cache_state warm_cache_config)) = Inr (VInt 8000) \<and>
    data warm_cache_config = [] \<and>
    fst (get warm_cache_config 0 ''port'' (VInt 1)) = VInt 8000) \<and>
   (\<not> cache_hit hashed_config 0 ''password'' \<and> is_encrypted hashed_config ''password'' \<and>
    encryption hashed_config = Some (HashEncryption rev) \<and>
    decrypt (HashEncryption rev) (py_str (get_nested_value hashed_config ''password'' (VStr ''x''))) =
      Inl (ConfigException ''Hash encryption is one-way, cannot decrypt'') \<and>
    fst (get hashed_config 0 ''password'' (VStr ''x'')) = VStr ''x'') \<and>
   (\<not> cache_hit scalar_a_config 0 ''a.b'' \<and>
    \<not> path_resolves (VDict (data scalar_a_config)) (split_dot ''a.b'') \<and>
    \<not> is_encrypted scalar_a_config ''a.b'' \<and>
    fst (get scalar_a_config 0 ''a.b'' (VInt 9)) = VInt 9) \<and>
   (fst (get_config two_config_manager 3 ''nope'') = Inl (ConfigException (not_found_message ''nope'')) \<and>
    fst (get_config_value two_config_manager 3 ''nope'' ''k'' (VInt 1)) = VInt 1) \<and>
   (fst (get_config two_config_manager 3 ''app'') = Inr (plain_config\<lparr>loaded := True, validated := True\<rparr>) \<and>
    fst (get_config_value two_config_manager 3 ''app'' ''k'' (VInt 2)) =
      fst (get (plain_config\<lparr>loaded := True, validated := True\<rparr>) 3 ''k'' (VInt 2)))"
proof -
  have a1: "cache failing_cache_config = Some failing_cache"
    by (simp add: failing_cache_config_def BaseConfig_init_def)
  have a2: "fst (cache_get failing_cache 0 ''port'' (cache_state failing_cache_config)) =
      Inl (PluginError ''cache down'')"
    by (simp add: failing_cache_def)
  have a: "fst (get failing_cache_config 0 ''port'' (VInt 1)) = VInt 1"
    using get_falls_back_to_default [where c = failing_cache_config and now = 0 and key = "''port''"
        and ch = failing_cache and e = "PluginError ''cache down''" and dflt = "VInt 1"] a1 a2
    by blast
  have w1: "cache warm_cache_config = Some MemoryCache_plugin"
    by (simp add: warm_cache_config_def cached_config_def BaseConfig_init_def)
  have w2: "fst (cache_get MemoryCache_plugin 0 ''port'' (cache_state warm_cache_config)) = Inr (VInt 8000)"
    by (simp add: warm_cache_config_def MemoryCache_plugin_def MemoryCache_get_def)
  have w3: "data warm_cache_config = []"
    by (simp add: warm_cache_config_def cached_config_def BaseConfig_init_def)
  have w: "fst (get warm_cache_config 0 ''port'' (VInt 1)) = VInt 8000"
    using get_falls_back_to_default [where c = warm_cache_config and now = 0 and key = "''port''"
        and ch = MemoryCache_plugin and v = "VInt 8000" and dflt = "VInt 1"] w1 w2
    by blast
  have b1: "\<not> cache_hit hashed_config 0 ''password''"
    by (simp add: cache_hit_def hashed_config_def BaseConfig_init_def)
  have b2: "is_encrypted hashed_config ''password''"
    by (simp add: is_encrypted_def hashed_config_def BaseConfig_init_def new_metadata_def)
  have b3: "encryption hashed_config = Some (HashEncryption rev)"
    by (simp add: hashed_config_def BaseConfig_init_def)
  have b4: "decrypt (HashEncryption rev) (py_str (get_nested_value hashed_config ''password'' (VStr ''x''))) =
      Inl (ConfigException ''Hash encryption is one-way, cannot decrypt'')"
    by (simp add: HashEncryption_def)
  have b: "fst (get hashed_config 0 ''password'' (VStr ''x'')) = VStr ''x''"
    using get_falls_back_to_default [where c = hashed_config and now = 0 and key = "''password''"
        and enc = "HashEncryption rev" and dflt = "VStr ''x''"
        and e = "ConfigException ''Hash encryption is one-way, cannot decrypt''"] b1 b2 b3 b4
    by blast
  have c1: "\<not> cache_hit scalar_a_config 0 ''a.b''"
    by (simp add: cache_hit_def scalar_a_config_def plain_config_def BaseConfig_init_def)
  have c2: "\<not> path_resolves (VDict (data scalar_a_config)) (split_dot ''a.b'')"
    by (simp add: scalar_a_config_def plain_config_def BaseConfig_init_def)
  have c3: "\<not> is_encrypted scalar_a_config ''a.b''"
    by (simp add: is_encrypted_def scalar_a_config_def plain_config_def BaseConfig_init_def)
  have c: "fst (get scalar_a_config 0 ''a.b'' (VInt 9)) = VInt 9"
    using get_falls_back_to_default [where c = scalar_a_config and now = 0 and key = "''a.b''"
        and dflt = "VInt 9"] c1 c2 c3
    by blast
  have d1: "fst (get_config two_config_manager 3 ''nope'') = Inl (ConfigException (not_found_message ''nope''))"
    by (simp add: get_config_def two_config_manager_def)
  have d: "fst (get_config_value two_config_manager 3 ''nope'' ''k'' (VInt 1)) = VInt 1"
    using get_falls_back_to_default [where m = two_config_manager and now = 3 and name = "''nope''"
        and e = "ConfigException (not_found_message ''nope'')" and key = "''k''" and dflt = "VInt 1"] d1
    by blast
  have e1: "fst (get_config two_config_manager 3 ''app'') = Inr (plain_config\<lparr>loaded := True, validated := True\<rparr>)"
    by (simp add: get_config_def two_config_manager_def plain_config_def BaseConfig_init_def
        load_def validate_def missing_keys_def)
  have e: "fst (get_config_value two_config_manager 3 ''app'' ''k'' (VInt 2)) =
      fst (get (plain_config\<lparr>loaded := True, validated := True\<rparr>) 3 ''k'' (VInt 2))"
    using get_falls_back_to_default [where m = two_config_manager and now = 3 and name = "''app''"
        and config = "plain_config\<lparr>loaded := True, validated := True\<rparr>" and key = "''k''"
        and dflt = "VInt 2"] e1
    by blast
  show ?thesis using a1 a2 a w1 w2 w3 w b1 b2 b3 b4 b c1 c2 c3 c d1 d e1 e by blast
qed

text \<open>
  C2 as it is stated fails on a missing path when the cache has a value for the key:
  \<^verbatim>\<open>get('missing', 5)\<close> on a configuration with a \<^verbatim>\<open>MemoryCache\<close> and no data returns 5
  and stores it in the cache, and \<^verbatim>\<open>get('missing', 7)\<close> then returns the cached 5, not
  the default 7 of that call.
\<close>

theorem get_falls_back_to_default_counterexample:
  "\<not> path_resolves (VDict (data cached_config)) (split_dot ''missing'') \<and>
   fst (get cached_config 0 ''missing'' (VInt 5)) = VInt 5 \<and>
   data (snd (get cached_config 0 ''missing'' (VInt 5))) = [] \<and>
   fst (get (snd (get cached_config 0 ''missing'' (VInt 5))) 1 ''missing'' (VInt 7)) = VInt 5"
  by (simp add: cached_config_def BaseConfig_init_def MemoryCache_plugin_def MemoryCache_init_def
      MemoryCache_get_def MemoryCache_set_def get_def get_body_def get_from_data_def
      get_cache_store_def get_nested_value_def is_encrypted_def Let_def)

subsection \<open>The environment loader\<close>

lemma env_loop_step:
  "EnvironmentLoader_loop P prefix ((key, val) # rest) config =
     (if startswith key prefix
      then (case parse_env_value P val of
              Inl e \<Rightarrow> Inl e
            | Inr v \<Rightarrow> EnvironmentLoader_loop P prefix rest (AList.update (config_key prefix key) v config))
      else EnvironmentLoader_loop P prefix rest config)"
  by (cases "prefix = []") (auto simp: config_key_def split: sum.splits)

lemma env_loop_keys:
  "EnvironmentLoader_loop P prefix env config = Inr c' \<Longrightarrow>
   fst ` set c' =
     fst ` set config \<union> config_key prefix ` {name \<in> fst ` set env. startswith name prefix}"
proof (induction env arbitrary: config)
  case Nil
  then show ?case by simp
next
  case (Cons kv env)
  obtain key val where kv: "kv = (key, val)" by (cases kv)
  show ?case
  proof (cases "startswith key prefix")
    case True
    from Cons.prems True obtain v where v: "parse_env_value P val = Inr v"
      and l: "EnvironmentLoader_loop P prefix env (AList.update (config_key prefix key) v config) = Inr c'"
      unfolding kv env_loop_step by (auto split: sum.splits)
    from Cons.IH[OF l] True show ?thesis unfolding kv by (auto simp: dom_update)
  next
    case False
    from Cons.prems False have l: "EnvironmentLoader_loop P prefix env config = Inr c'"
      unfolding kv env_loop_step by simp
    from Cons.IH[OF l] False show ?thesis unfolding kv by auto
  qed
qed

lemma env_loop_values:
  "EnvironmentLoader_loop P prefix env config = Inr c' \<Longrightarrow> map_of c' k = Some v \<Longrightarrow>
     map_of config k = Some v \<or>
     (\<exists>name raw. (name, raw) \<in> set env \<and> startswith name prefix \<and>
        k = config_key prefix name \<and> parse_env_value P raw = Inr v)"
proof (induction env arbitrary: config)
  case Nil
  then show ?case by simp
next
  case (Cons kv env)
  obtain key val where kv: "kv = (key, val)" by (cases kv)
  show ?case
  proof (cases "startswith key prefix")
    case True
    from Cons.prems(1) True obtain w where w: "parse_env_value P val = Inr w"
      and l: "EnvironmentLoader_loop P prefix env (AList.update (config_key prefix key) w config) = Inr c'"
      unfolding kv env_loop_step by (auto split: sum.splits)
    from Cons.IH[OF l Cons.prems(2)] show ?thesis
      using True kv w by (auto simp: update_conv' split: if_splits)
  next
    case False
    from Cons.prems(1) False have l: "EnvironmentLoader_loop P prefix env config = Inr c'"
      unfolding kv env_loop_step by simp
    from Cons.IH[OF l Cons.prems(2)] show ?thesis by auto
  qed
qed

lemma env_loop_untouched:
  "EnvironmentLoader_loop P prefix env config = Inr c' \<Longrightarrow>
   (\<forall>name raw. (name, raw) \<in> set env \<and> startswith name prefix \<longrightarrow> config_key prefix name \<noteq> k) \<Longrightarrow>
   map_of c' k = map_of config k"
proof (induction env arbitrary: config)
  case Nil
  then show ?case by simp
next
  case (Cons kv env)
  obtain key val where kv: "kv = (key, val)" by (cases kv)
  have rest: "\<forall>name raw. (name, raw) \<in> set env \<and> startswith name prefix \<longrightarrow> config_key prefix name \<noteq> k"
    using Cons.prems(2) by auto
  show ?case
  proof (cases "startswith key prefix")
    case True
    from Cons.prems(1) True obtain w where w: "parse_env_value P val = Inr w"
      and l: "EnvironmentLoader_loop P prefix env (AList.update (config_key prefix key) w config) = Inr c'"
      unfolding kv env_loop_step by (auto split: sum.splits)
    have "config_key prefix key \<noteq> k" using Cons.prems(2) True kv by auto
    then show ?thesis using Cons.IH[OF l rest] by (simp add: update_conv')
  next
    case False
    from Cons.prems(1) False have l: "EnvironmentLoader_loop P prefix env config = Inr c'"
      unfolding kv env_loop_step by simp
    from Cons.IH[OF l rest] show ?thesis .
  qed
qed

lemma env_loop_append:
  "EnvironmentLoader_loop P prefix (xs @ ys) config =
     (case EnvironmentLoader_loop P prefix xs config of
        Inl e \<Rightarrow> Inl e
      | Inr c1 \<Rightarrow> EnvironmentLoader_loop P prefix ys c1)"
proof (induction xs arbitrary: config)
  case Nil
  then show ?case by simp
next
  case (Cons kv xs)
  obtain key val where kv: "kv = (key, val)" by (cases kv)
  show ?case unfolding kv append_Cons env_loop_step using Cons.IH by (auto split: sum.splits)
qed

lemma env_loop_last:
  assumes "EnvironmentLoader_loop P prefix (xs @ (name, raw) # ys) config = Inr c'"
    and "startswith name prefix"
    and "\<forall>n r. (n, r) \<in> set ys \<and> startswith n prefix \<longrightarrow> config_key prefix n \<noteq> config_key prefix name"
  shows "\<exists>v. parse_env_value P raw = Inr v \<and> map_of c' (config_key prefix name) = Some v"
proof -
  from assms(1) obtain c1 where c1: "EnvironmentLoader_loop P prefix xs config = Inr c1"
    and r: "EnvironmentLoader_loop P prefix ((name, raw) # ys) c1 = Inr c'"
    unfolding env_loop_append by (auto split: sum.splits)
  from r assms(2) obtain v where v: "parse_env_value P raw = Inr v"
    and l: "EnvironmentLoader_loop P prefix ys (AList.update (config_key prefix name) v c1) = Inr c'"
    unfolding env_loop_step by (auto split: sum.splits)
  have "map_of c' (config_key prefix name) = map_of (AList.update (config_key prefix name) v c1) (config_key prefix name)"
    using env_loop_untouched[OF l assms(3)] .
  then show ?thesis using v by (simp add: update_conv')
qed

lemma env_loop_total:
  "(\<forall>name raw. (name, raw) \<in> set env \<and> startswith name prefix \<longrightarrow> (\<exists>v. parse_env_value P raw = Inr v)) \<Longrightarrow>
   \<exists>c'. EnvironmentLoader_loop P prefix env config = Inr c'"
proof (induction env arbitrary: config)
  case Nil
  then show ?case by simp
next
  case (Cons kv env)
  obtain key val where kv: "kv = (key, val)" by (cases kv)
  have rest: "\<forall>name raw. (name, raw) \<in> set env \<and> startswith name prefix \<longrightarrow> (\<exists>v. parse_env_value P raw = Inr v)"
    using Cons.prems by auto
  show ?case
  proof (cases "startswith key prefix")
    case True
    then obtain v where "parse_env_value P val = Inr v" using Cons.prems kv by auto
    then show ?thesis unfolding kv env_loop_step using True Cons.IH[OF rest] by simp
  next
    case False
    then show ?thesis unfolding kv env_loop_step using Cons.IH[OF rest] by simp
  qed
qed

lemma env_loop_raises:
  "EnvironmentLoader_loop P prefix env config = Inl e \<Longrightarrow>
   \<exists>name raw. (name, raw) \<in> set env \<and> startswith name prefix \<and> parse_env_value P raw = Inl e"
proof (induction env arbitrary: config)
  case Nil
  then show ?case by simp
next
  case (Cons kv env)
  obtain key val where kv: "kv = (key, val)" by (cases kv)
  show ?case
  proof (cases "startswith key prefix")
    case True
    show ?thesis
    proof (cases "parse_env_value P val")
      case (Inl e')
      then have "e' = e" using Cons.prems True unfolding kv env_loop_step by simp
      then show ?thesis using Inl True kv by auto
    next
      case (Inr v)
      then have "EnvironmentLoader_loop P prefix env (AList.update (config_key prefix key) v config) = Inl e"
        using Cons.prems True unfolding kv env_loop_step by simp
      from Cons.IH[OF this] show ?thesis by auto
    qed
  next
    case False
    then have "EnvironmentLoader_loop P prefix env config = Inl e"
      using Cons.prems unfolding kv env_loop_step by simp
    from Cons.IH[OF this] show ?thesis by auto
  qed
qed

text \<open>
  C7, as the code has it. When the environment loader returns a mapping, its keys are the
  names of the variables that start with the prefix, with the prefix removed and in lower
  case; every value is the coercion of the value of such a variable, and a variable after
  which no other matching variable gives the same key gives the value under its key. The
  loader returns a mapping whenever \<^verbatim>\<open>json.loads\<close> raises nothing but \<open>ValueError\<close> on
  the values of the matching variables. The coercion gives a boolean for \<^verbatim>\<open>true\<close> and
  \<^verbatim>\<open>false\<close> in any case, else the integer if \<^verbatim>\<open>int\<close> reads one, else the float if
  \<^verbatim>\<open>float\<close> reads one, else the value if \<^verbatim>\<open>json.loads\<close> returns one, else the string
  itself if \<^verbatim>\<open>json.loads\<close> raises \<open>ValueError\<close>. With the prefix \<^verbatim>\<open>APP_\<close> and
  \<^verbatim>\<open>APP_PORT=9090\<close> in the environment, and no other matching variable that gives the key
  \<^verbatim>\<open>port\<close> with another value, the mapping has the integer 9090 under \<^verbatim>\<open>port\<close>.
\<close>

theorem environment_loader_coerces:
  "(EnvironmentLoader_load P prefix env = Inr config \<longrightarrow>
      fst ` set config = config_key prefix ` {name \<in> fst ` set env. startswith name prefix} \<and>
      (\<forall>k v. map_of config k = Some v \<longrightarrow>
         (\<exists>name raw. (name, raw) \<in> set env \<and> startswith name prefix \<and>
            k = config_key prefix name \<and> parse_env_value P raw = Inr v)) \<and>
      (\<forall>xs name raw ys. env = xs @ (name, raw) # ys \<and> startswith name prefix \<and>
          (\<forall>n r. (n, r) \<in> set ys \<and> startswith n prefix \<longrightarrow>
             config_key prefix n \<noteq> config_key prefix name) \<longrightarrow>
         (\<exists>v. parse_env_value P raw = Inr v \<and> map_of config (config_key prefix name) = Some v))) \<and>
   ((\<forall>name raw e. (name, raw) \<in> set env \<and> startswith name prefix \<and> json_loads P raw = Inl e \<longrightarrow>
        e = ValueError) \<longrightarrow>
      (\<exists>config'. EnvironmentLoader_load P prefix env = Inr config')) \<and>
   parse_env_value P s =
     (if lower s = ''true'' then Inr (VBool True)
      else if lower s = ''false'' then Inr (VBool False)
      else case py_int P s of
        Some i \<Rightarrow> Inr (VInt i)
      | None \<Rightarrow> (case py_float P s of
          Some f \<Rightarrow> Inr (VFloat f)
        | None \<Rightarrow> (case json_loads P s of
            Inr j \<Rightarrow> Inr j
          | Inl e \<Rightarrow> if e = ValueError then Inr (VStr s) else Inl e))) \<and>
   (py_int P ''9090'' = Some 9090 \<and> (''APP_PORT'', ''9090'') \<in> set env \<and>
    (\<forall>name raw. (name, raw) \<in> set env \<and> startswith name ''APP_'' \<and>
        config_key ''APP_'' name = ''port'' \<longrightarrow> raw = ''9090'') \<and>
    EnvironmentLoader_load P ''APP_'' env = Inr config2 \<longrightarrow>
    map_of config2 ''port'' = Some (VInt 9090))"
proof (intro conjI impI allI)
  assume l: "EnvironmentLoader_load P prefix env = Inr config"
  show "fst ` set config = config_key prefix ` {name \<in> fst ` set env. startswith name prefix}"
    using env_loop_keys[of P prefix env "[]" config] l by (simp add: EnvironmentLoader_load_def)
next
  fix k v
  assume l: "EnvironmentLoader_load P prefix env = Inr config" and m: "map_of config k = Some v"
  show "\<exists>name raw. (name, raw) \<in> set env \<and> startswith name prefix \<and>
            k = config_key prefix name \<and> parse_env_value P raw = Inr v"
    using env_loop_values[of P prefix env "[]" config k v] l m by (simp add: EnvironmentLoader_load_def)
next
  fix xs name raw ys
  assume l: "EnvironmentLoader_load P prefix env = Inr config"
    and a: "env = xs @ (name, raw) # ys \<and> startswith name prefix \<and>
          (\<forall>n r. (n, r) \<in> set ys \<and> startswith n prefix \<longrightarrow>
             config_key prefix n \<noteq> config_key prefix name)"
  show "\<exists>v. parse_env_value P raw = Inr v \<and> map_of config (config_key prefix name) = Some v"
    using env_loop_last[of P prefix xs name raw ys "[]" config] l a
    by (simp add: EnvironmentLoader_load_def)
next
  assume j: "\<forall>name raw e. (name, raw) \<in> set env \<and> startswith name prefix \<and> json_loads P raw = Inl e \<longrightarrow>
        e = ValueError"
  have "\<forall>name raw. (name, raw) \<in> set env \<and> startswith name prefix \<longrightarrow> (\<exists>v. parse_env_value P raw = Inr v)"
  proof (intro allI impI)
    fix name raw assume m: "(name, raw) \<in> set env \<and> startswith name prefix"
    show "\<exists>v. parse_env_value P raw = Inr v"
    proof (cases "json_loads P raw")
      case (Inl e)
      then have "e = ValueError" using j m by blast
      then show ?thesis using Inl by (auto simp: parse_env_value_def split: option.splits)
    next
      case (Inr v)
      then show ?thesis by (auto simp: parse_env_value_def split: option.splits)
    qed
  qed
  then show "\<exists>config'. EnvironmentLoader_load P prefix env = Inr config'"
    unfolding EnvironmentLoader_load_def by (rule env_loop_total)
next
  show "parse_env_value P s =
     (if lower s = ''true'' then Inr (VBool True)
      else if lower s = ''false'' then Inr (VBool False)
      else case py_int P s of
        Some i \<Rightarrow> Inr (VInt i)
      | None \<Rightarrow> (case py_float P s of
          Some f \<Rightarrow> Inr (VFloat f)
        | None \<Rightarrow> (case json_loads P s of
            Inr j \<Rightarrow> Inr j
          | Inl e \<Rightarrow> if e = ValueError then Inr (VStr s) else Inl e)))"
    by (simp add: parse_env_value_def)
next
  assume a: "py_int P ''9090'' = Some 9090 \<and> (''APP_PORT'', ''9090'') \<in> set env \<and>
    (\<forall>name raw. (name, raw) \<in> set env \<and> startswith name ''APP_'' \<and>
        config_key ''APP_'' name = ''port'' \<longrightarrow> raw = ''9090'') \<and>
    EnvironmentLoader_load P ''APP_'' env = Inr config2"
  have ck: "config_key ''APP_'' ''APP_PORT'' = ''port''" by code_simp
  have sw: "startswith ''APP_PORT'' ''APP_''" by simp
  have lw: "lower ''9090'' \<noteq> ''true''" "lower ''9090'' \<noteq> ''false''" by (simp_all add: lower_def)
  have pv: "parse_env_value P ''9090'' = Inr (VInt 9090)" using a lw by (simp add: parse_env_value_def)
  have l: "EnvironmentLoader_loop P ''APP_'' env [] = Inr config2"
    using a by (simp add: EnvironmentLoader_load_def)
  have "''APP_PORT'' \<in> {name \<in> fst ` set env. startswith name ''APP_''}"
    using a sw by force
  then have "''port'' \<in> fst ` set config2"
    unfolding env_loop_keys[OF l] using ck by (metis (no_types, lifting) UnI2 imageI)
  then obtain v where v: "map_of config2 ''port'' = Some v"
    by (metis domD dom_map_of_conv_image_fst)
  from env_loop_values[OF l v]
  obtain name raw where "(name, raw) \<in> set env" "startswith name ''APP_''"
    "''port'' = config_key ''APP_'' name" "parse_env_value P raw = Inr v"
    by auto
  then have "v = VInt 9090" using a pv by (metis sum.inject(2))
  then show "map_of config2 ''port'' = Some (VInt 9090)"
    using v by simp
qed

theorem environment_loader_coerces_witness:
  "py_int digit_parsers ''9090'' = Some 9090 \<and>
   (''APP_PORT'', ''9090'') \<in> set [(''HOME'', ''/root''), (''APP_PORT'', ''9090''), (''APP_DEBUG'', ''True'')] \<and>
   EnvironmentLoader_load digit_parsers ''APP_''
     [(''HOME'', ''/root''), (''APP_PORT'', ''9090''), (''APP_DEBUG'', ''True'')] =
     Inr [(''port'', VInt 9090), (''debug'', VBool True)] \<and>
   map_of [(''port'', VInt 9090), (''debug'', VBool True)] ''port'' = Some (VInt 9090)"
proof -
  let ?env = "[(''HOME'', ''/root''), (''APP_PORT'', ''9090''), (''APP_DEBUG'', ''True'')]"
  have h1: "py_int digit_parsers ''9090'' = Some 9090"
    by (simp add: digit_parsers_def digits_value_def)
  have h2: "(''APP_PORT'', ''9090'') \<in> set ?env" by simp
  have ck: "config_key ''APP_'' ''APP_DEBUG'' \<noteq> ''port''" by code_simp
  have h3: "\<forall>name raw. (name, raw) \<in> set ?env \<and> startswith name ''APP_'' \<and>
        config_key ''APP_'' name = ''port'' \<longrightarrow> raw = ''9090''"
    using ck by auto
  have e: "EnvironmentLoader_load digit_parsers ''APP_'' ?env =
     Inr [(''port'', VInt 9090), (''debug'', VBool True)]"
    by code_simp
  from environment_loader_coerces [where P = digit_parsers and env = ?env
      and ?config2.0 = "[(''port'', VInt 9090), (''debug'', VBool True)]"] h1 h2 h3 e
  have "map_of [(''port'', VInt 9090), (''debug'', VBool True)] ''port'' = Some (VInt 9090)"
    by blast
  then show ?thesis using h1 h2 e by simp
qed

text \<open>
  C7 as it is stated fails when two matching variables give the same key: with
  \<^verbatim>\<open>APP_PORT=9090\<close> followed by \<^verbatim>\<open>APP_port=1\<close>, the key of both is \<^verbatim>\<open>port\<close>, the later
  one overwrites the earlier one, and the mapping has 1 under \<^verbatim>\<open>port\<close>, not 9090.
\<close>

theorem environment_loader_coerces_counterexample:
  "py_int digit_parsers ''9090'' = Some 9090 \<and>
   (''APP_PORT'', ''9090'') \<in> set two_ports_environ \<and>
   EnvironmentLoader_load digit_parsers ''APP_'' two_ports_environ = Inr [(''port'', VInt 1)]"
proof -
  have "py_int digit_parsers ''9090'' = Some 9090"
    by (simp add: digit_parsers_def digits_value_def)
  moreover have "(''APP_PORT'', ''9090'') \<in> set two_ports_environ"
    by (simp add: two_ports_environ_def)
  moreover have "EnvironmentLoader_load digit_parsers ''APP_'' two_ports_environ = Inr [(''port'', VInt 1)]"
    by code_simp
  ultimately show ?thesis by simp
qed

end
